theory Spec2Isabelle
  imports Complex_Main "HOL-Library.AList" "HOL-Library.Code_Target_Nat"
begin

section \<open>Python string primitives used by hypod.py\<close>


definition upper_char :: "char \<Rightarrow> char" where
  "upper_char c =
     (let n = (of_char c :: nat) in if 97 \<le> n \<and> n \<le> 122 then char_of (n - 32) else c)"

definition lower_char :: "char \<Rightarrow> char" where
  "lower_char c =
     (let n = (of_char c :: nat) in if 65 \<le> n \<and> n \<le> 90 then char_of (n + 32) else c)"

text \<open>\<open>s.capitalize()\<close>: first character upper-cased, the rest lower-cased.\<close>

fun capitalize :: "string \<Rightarrow> string" where
  "capitalize [] = []"
| "capitalize (c # cs) = upper_char c # map lower_char cs"

definition upper :: "string \<Rightarrow> string" where
  "upper s = map upper_char s"

definition lower :: "string \<Rightarrow> string" where
  "lower s = map lower_char s"

definition startswith :: "string \<Rightarrow> string \<Rightarrow> bool" where
  "startswith s p = (take (length p) s = p)"

text \<open>\<open>str(n)\<close> and the f-string rendering \<open>f"{n}"\<close> of an integer: decimal digits.\<close>

fun str_nat :: "nat \<Rightarrow> string" where
  "str_nat n =
     (if n < 10 then [char_of (48 + n)]
      else str_nat (n div 10) @ [char_of (48 + n mod 10)])"

declare str_nat.simps [simp del]

definition str_int :: "int \<Rightarrow> string" where
  "str_int i = (if i < 0 then CHR ''-'' # str_nat (nat (- i)) else str_nat (nat i))"

text \<open>\<open>s.replace("GB", "")\<close>: every non-overlapping occurrence, left to right.\<close>

fun remove_GB :: "string \<Rightarrow> string" where
  "remove_GB [] = []"
| "remove_GB [c] = [c]"
| "remove_GB (c # d # cs) =
     (if c = CHR ''G'' \<and> d = CHR ''B'' then remove_GB cs else c # remove_GB (d # cs))"

definition is_digit :: "char \<Rightarrow> bool" where
  "is_digit c = (48 \<le> (of_char c :: nat) \<and> (of_char c :: nat) \<le> 57)"

definition digits_val :: "string \<Rightarrow> nat" where
  "digits_val s = foldl (\<lambda>a c. 10 * a + ((of_char c :: nat) - 48)) 0 s"

text \<open>The white space below 128: tab to carriage return, the four separators, space.\<close>

definition is_space :: "char \<Rightarrow> bool" where
  "is_space c =
     (let n = (of_char c :: nat) in (9 \<le> n \<and> n \<le> 13) \<or> (28 \<le> n \<and> n \<le> 32))"

definition strip :: "string \<Rightarrow> string" where
  "strip s = rev (dropWhile is_space (rev (dropWhile is_space s)))"

text \<open>The digits of a numeral in which single underscores may stand between digits;
  \<open>None\<close> when the string is not of that form.\<close>

fun digits_of :: "string \<Rightarrow> string option" where
  "digits_of [] = None"
| "digits_of [c] = (if is_digit c then Some [c] else None)"
| "digits_of (c # d # cs) =
     (if \<not> is_digit c then None
      else if d = CHR ''_'' then map_option ((#) c) (digits_of cs)
      else map_option ((#) c) (digits_of (d # cs)))"

text \<open>
  \<open>int(s)\<close> on a string: surrounding white space is dropped, then an optional sign and a
  decimal numeral give the number; anything else is Python's ValueError (\<open>None\<close>).
  This is \<open>int\<close> on ASCII strings; Python also reads the decimal digits and the
  white space of Unicode outside ASCII, which are not modelled.
\<close>

definition py_int :: "string \<Rightarrow> int option" where
  "py_int s =
     (case strip s of
        [] \<Rightarrow> None
      | c # cs \<Rightarrow>
          if c = CHR ''-'' then map_option (\<lambda>ds. - int (digits_val ds)) (digits_of cs)
          else if c = CHR ''+'' then map_option (\<lambda>ds. int (digits_val ds)) (digits_of cs)
          else map_option (\<lambda>ds. int (digits_val ds)) (digits_of (c # cs)))"

section \<open>Resource catalogue\<close>

text \<open>The tables \<open>PLANS\<close> and \<open>PRICES\<close> (lines 44-56): plan to (ram, cpu, storage) and
  plan to processor to price.\<close>

definition PLANS :: "(string \<times> (string \<times> string \<times> int)) list" where
  "PLANS =
     [(''Starter'', (''4GB'', ''1'', 20)),
      (''Basic'', (''8GB'', ''1'', 30)),
      (''Standard'', (''12GB'', ''2'', 50)),
      (''Pro'', (''16GB'', ''2'', 80))]"

definition PRICES :: "(string \<times> (string \<times> int) list) list" where
  "PRICES =
     [(''Starter'', [(''Intel'', 42), (''AMD'', 83)]),
      (''Basic'', [(''Intel'', 96), (''AMD'', 164)]),
      (''Standard'', [(''Intel'', 192), (''AMD'', 320)]),
      (''Pro'', [(''Intel'', 220), (''AMD'', 340)])]"

definition CPU_THRESHOLD :: real where
  "CPU_THRESHOLD = 90"

section \<open>The store\<close>

text \<open>
  One container record, as the dictionaries built at lines 468-476 and 578-588. The keys
  \<open>plan\<close> and \<open>processor\<close> exist only on purchased records. The owner of a record is
  the key of \<open>vps_data\<close> under which its list is stored; a record has no owner field.
\<close>

record vps =
  plan :: "string option"
  container_name :: string
  ram :: string
  cpu :: string
  storage :: string
  status :: string
  created_at :: string
  processor :: "string option"
  shared_with :: "string list"

text \<open>
  The process state. \<open>user_data\<close> maps a user id to the account's credits and
  \<open>vps_data\<close> a user id to the owner's list of records, as the two global dictionaries
  do. A Python dictionary keeps its keys in insertion order, so each is an association
  list: \<open>map_of\<close> reads a key, \<open>AList.update\<close> overwrites a key in place or appends a
  new one, \<open>AList.delete\<close> removes one. \<open>flushes\<close> counts the calls of
  \<open>save_data\<close> and \<open>lxc_log\<close> lists the commands handed to the container runtime,
  oldest first. \<open>cpu_monitor_active\<close> is the global flag
  of line 41; \<open>cpu_thread_alive\<close> says that the monitor thread started at line 193 is
  still inside the loop of \<open>cpu_monitor\<close>, and \<open>samples\<close> counts its calls of
  \<open>get_cpu_usage\<close>.
\<close>

record store =
  user_data :: "(string \<times> int) list"
  vps_data :: "(string \<times> vps list) list"
  flushes :: nat
  lxc_log :: "string list"
  cpu_monitor_active :: bool
  cpu_thread_alive :: bool
  samples :: nat

text \<open>
  What a command reports. The constructors are named after the titles of the error
  embeds of the source: \<open>InvalidPlan\<close> ("Invalid Plan") is the spec's UnknownPlan,
  \<open>InvalidProcessor\<close> its UnknownProcessor, \<open>InvalidSpecs\<close> its InvalidSpec and
  \<open>InvalidVPS\<close> its NotFound. \<open>Uncaught\<close> is an exception that leaves the command
  function (the framework's \<open>on_command_error\<close> then reports "System Error").
\<close>

datatype error =
    InvalidPlan
  | InvalidProcessor
  | InsufficientCredits
  | PurchaseFailed
  | InvalidSpecs
  | CreationFailed
  | InvalidVPS
  | AlreadyShared
  | NotShared
  | DeletionFailed
  | ResizeFailed
  | StartFailed
  | StopFailed
  | ReinstallFailed
  | RestartFailed
  | InvalidAmount
  | Uncaught

section \<open>The environment of one command\<close>

text \<open>
  The outcome of a call into the chat library: delivered, refused with the library's
  \<open>Forbidden\<close> exception, or failed with another exception.
\<close>

datatype send_outcome = Delivered | Forbidden | HTTPError

text \<open>
  Everything outside the process that one command run depends on. \<open>lxc_ok c\<close> says that
  the runtime command \<open>c\<close> exits with code 0 within its timeout; \<open>now\<close> is
  \<open>datetime.now().isoformat()\<close>. \<open>progress_send\<close> is the send of the progress embed before
  the \<open>try\<close> block, \<open>guild_role\<close> is \<open>None\<close> when the command runs outside a guild or no
  role could be obtained and otherwise the outcome of \<open>add_roles\<close>/\<open>remove_roles\<close>,
  \<open>step_send\<close> is a progress notice sent between two runtime calls (reinstall only),
  \<open>result_send\<close> is the send of the success embed (with the refresh of the view's
  message where one follows), \<open>dm_send\<close> the direct message and \<open>dm_fallback_send\<close> the
  notice sent when the direct message was refused. A send that is the last action of a
  command, outside every \<open>try\<close> block, is not part of the environment: nothing follows
  it, and the result of the command is what it was about to report.
\<close>

record env =
  lxc_ok :: "string \<Rightarrow> bool"
  now :: string
  progress_send :: send_outcome
  step_send :: send_outcome
  guild_role :: "send_outcome option"
  result_send :: send_outcome
  dm_send :: send_outcome
  dm_fallback_send :: send_outcome

text \<open>\<open>save_data\<close> (lines 72-82) rewrites the three files and never raises.\<close>

definition save_data :: "store \<Rightarrow> store" where
  "save_data st = st\<lparr>flushes := flushes st + 1\<rparr>"

text \<open>
  \<open>execute_lxc\<close> (lines 126-148): hands the command to the runtime; \<open>True\<close> when it
  returns, \<open>False\<close> when it raises (non-zero exit code, timeout, or any other failure).
\<close>

definition execute_lxc :: "env \<Rightarrow> string \<Rightarrow> store \<Rightarrow> bool \<times> store" where
  "execute_lxc e command st = (lxc_ok e command, st\<lparr>lxc_log := lxc_log st @ [command]\<rparr>)"

definition grow_script :: string where
  "grow_script =
     ''apt-get update -y && apt-get install -y cloud-guest-utils || true; '' @
     ''growpart /dev/sda 1 || true; '' @
     ''if command -v resize2fs >/dev/null 2>&1; then resize2fs /dev/sda1 || true; fi; '' @
     ''if command -v xfs_growfs >/dev/null 2>&1; then xfs_growfs / || true; fi''"

definition quota_command :: "string \<Rightarrow> int \<Rightarrow> string" where
  "quota_command name size_gb =
     ''lxc config device override '' @ name @ '' root size='' @ str_int size_gb @ ''GB''"

definition grow_command :: "string \<Rightarrow> string" where
  "grow_command name = ''lxc exec '' @ name @ '' -- bash -lc \"'' @ grow_script @ ''\"''"

text \<open>
  \<open>set_root_disk_size\<close> (lines 196-217): the quota override must succeed; the in-guest
  growth is attempted afterwards and its failure is only logged.
\<close>

definition set_root_disk_size :: "env \<Rightarrow> string \<Rightarrow> int \<Rightarrow> store \<Rightarrow> bool \<times> store" where
  "set_root_disk_size e name size_gb st =
     (let (ok, st1) = execute_lxc e (quota_command name size_gb) st in
      if \<not> ok then (False, st1)
      else (True, snd (execute_lxc e (grow_command name) st1)))"

definition launch_command :: "string \<Rightarrow> int \<Rightarrow> string \<Rightarrow> string \<Rightarrow> string" where
  "launch_command name ram_mb cpu_s pool =
     ''lxc launch debian:12 '' @ name @ '' --config limits.memory='' @ str_int ram_mb @
     ''MB --config limits.cpu='' @ cpu_s @ '' -s '' @ pool"

text \<open>\<open>core_create_container\<close> (lines 220-226).\<close>

definition core_create_container ::
  "env \<Rightarrow> string \<Rightarrow> int \<Rightarrow> int \<Rightarrow> int \<Rightarrow> string \<Rightarrow> store \<Rightarrow> bool \<times> store" where
  "core_create_container e name ram_gb cpu_n storage_gb pool st =
     (let ram_mb = ram_gb * 1024;
          (ok, st1) = execute_lxc e (launch_command name ram_mb (str_int cpu_n) pool) st in
      if \<not> ok then (False, st1)
      else set_root_disk_size e name storage_gb st1)"

section \<open>Helpers shared by the commands\<close>

text \<open>\<open>if user_id not in user_data: user_data[user_id] = {"credits": 0}\<close>\<close>

definition ensure_user :: "string \<Rightarrow> store \<Rightarrow> store" where
  "ensure_user user_id st =
     (if map_of (user_data st) user_id = None
      then st\<lparr>user_data := AList.update user_id 0 (user_data st)\<rparr> else st)"

text \<open>\<open>if user_id not in vps_data: vps_data[user_id] = []\<close>\<close>

definition ensure_vps_list :: "string \<Rightarrow> store \<Rightarrow> store" where
  "ensure_vps_list user_id st =
     (if map_of (vps_data st) user_id = None
      then st\<lparr>vps_data := AList.update user_id [] (vps_data st)\<rparr> else st)"

text \<open>\<open>user_data[user_id]["credits"]\<close>; a user without an account has no credits.\<close>

definition credits_of :: "(string \<times> int) list \<Rightarrow> string \<Rightarrow> int" where
  "credits_of tbl user_id = (case map_of tbl user_id of None \<Rightarrow> 0 | Some c \<Rightarrow> c)"

text \<open>\<open>vps_data.get(user_id, [])\<close>\<close>

definition vps_list :: "(string \<times> vps list) list \<Rightarrow> string \<Rightarrow> vps list" where
  "vps_list tbl user_id = (case map_of tbl user_id of None \<Rightarrow> [] | Some vs \<Rightarrow> vs)"

text \<open>\<open>f"vps-{user_id}-{vps_count}"\<close> (lines 461 and 564).\<close>

definition vps_name :: "string \<Rightarrow> nat \<Rightarrow> string" where
  "vps_name user_id vps_count = ''vps-'' @ user_id @ ''-'' @ str_nat vps_count"

text \<open>
  The notifications after a record has been stored (lines 480-502 and 592-614): the role
  assignment, whose \<open>Forbidden\<close> is caught, the success embed, and the direct message,
  whose \<open>Forbidden\<close> is answered with a notice. \<open>True\<close> when no exception leaves them.
\<close>

definition notify :: "env \<Rightarrow> bool" where
  "notify e =
     (guild_role e \<noteq> Some HTTPError \<and> result_send e = Delivered \<and>
      (dm_send e = Delivered \<or> (dm_send e = Forbidden \<and> dm_fallback_send e = Delivered)))"

section \<open>Creating and purchasing\<close>

text \<open>
  \<open>create_vps\<close> (lines 450-505), after the admin check of its decorator. The progress
  embed is sent before the \<open>try\<close> block; every exception inside the block ends in
  "Creation Failed".
\<close>

definition create_vps ::
  "env \<Rightarrow> nat \<Rightarrow> int \<Rightarrow> int \<Rightarrow> int \<Rightarrow> store \<Rightarrow> (error + vps) \<times> store" where
  "create_vps e user ram_gb cpu_n storage_gb st =
     (if ram_gb \<le> 0 \<or> cpu_n \<le> 0 \<or> storage_gb \<le> 0 then (Inl InvalidSpecs, st)
      else
        let user_id = str_nat user;
            st1 = ensure_vps_list user_id st;
            vps_count = length (vps_list (vps_data st1) user_id) + 1;
            name = vps_name user_id vps_count
        in
          if progress_send e \<noteq> Delivered then (Inl Uncaught, st1)
          else
            let (ok, st2) = core_create_container e name ram_gb cpu_n storage_gb ''btrpool'' st1
            in
              if \<not> ok then (Inl CreationFailed, st2)
              else
                let vps_info =
                      \<lparr>plan = None, container_name = name, ram = str_int ram_gb @ ''GB'',
                       cpu = str_int cpu_n, storage = str_int storage_gb @ ''GB'',
                       status = ''running'', created_at = now e, processor = None,
                       shared_with = []\<rparr>;
                    st3 = save_data
                      (st2\<lparr>vps_data :=
                         AList.update user_id (vps_list (vps_data st2) user_id @ [vps_info]) (vps_data st2)\<rparr>)
                in if notify e then (Inr vps_info, st3) else (Inl CreationFailed, st3))"

text \<open>\<open>PRICES[plan][processor_key]\<close> (line 549); \<open>None\<close> is Python's KeyError.\<close>

definition price :: "string \<Rightarrow> string \<Rightarrow> int option" where
  "price p k = (case map_of PRICES p of None \<Rightarrow> None | Some row \<Rightarrow> map_of row k)"

text \<open>
  Lines 538-549 of \<open>buy_with_credits\<close>: the plan and the processor are capitalized and
  checked, then the processor key and the price are looked up. The result is the
  capitalized plan, the processor key and the cost.
\<close>

definition resolve_order :: "string \<Rightarrow> string \<Rightarrow> error + (string \<times> string \<times> int)" where
  "resolve_order pl prc =
     (let pl' = capitalize pl; prc' = capitalize prc in
      if map_of PRICES pl' = None then Inl InvalidPlan
      else if prc' \<notin> set [''Intel'', ''AMD'', ''Amd''] then Inl InvalidProcessor
      else
        let processor_key = (if startswith (upper prc') ''A'' then ''AMD'' else ''Intel'')
        in (case price pl' processor_key of
              None \<Rightarrow> Inl Uncaught
            | Some cost \<Rightarrow> Inr (pl', processor_key, cost)))"

text \<open>\<open>storage if storage and storage > 0 else default_storage\<close> (line 570).\<close>

definition pick_storage :: "int option \<Rightarrow> int \<Rightarrow> int" where
  "pick_storage sto default_storage =
     (case sto of
        None \<Rightarrow> default_storage
      | Some s \<Rightarrow> if s \<noteq> 0 \<and> s > 0 then s else default_storage)"

text \<open>The \<open>except\<close> branch of \<open>buy_with_credits\<close> (lines 616-620): refund, then flush.\<close>

definition refund :: "string \<Rightarrow> int \<Rightarrow> store \<Rightarrow> store" where
  "refund user_id cost st =
     save_data (st\<lparr>user_data := AList.update user_id (credits_of (user_data st) user_id + cost) (user_data st)\<rparr>)"

text \<open>
  \<open>buy_with_credits\<close> (lines 536-620). The debit (line 559) and the progress embed
  (line 573) come before the \<open>try\<close> block; the block holds the provisioning, the
  append and flush of the record, and the notifications.
\<close>

definition buy_with_credits ::
  "env \<Rightarrow> nat \<Rightarrow> string \<Rightarrow> string \<Rightarrow> int option \<Rightarrow> store \<Rightarrow> (error + vps) \<times> store" where
  "buy_with_credits e author pl prc sto st =
     (case resolve_order pl prc of
        Inl err \<Rightarrow> (Inl err, st)
      | Inr (pl', processor_key, cost) \<Rightarrow>
         (let user_id = str_nat author;
              st1 = ensure_user user_id st
          in
            if credits_of (user_data st1) user_id < cost then (Inl InsufficientCredits, st1)
            else
              let st2 = st1\<lparr>user_data :=
                          AList.update user_id (credits_of (user_data st1) user_id - cost) (user_data st1)\<rparr>;
                  st3 = ensure_vps_list user_id st2;
                  vps_count = length (vps_list (vps_data st3) user_id) + 1;
                  name = vps_name user_id vps_count
              in
               (case map_of PLANS pl' of
                  None \<Rightarrow> (Inl Uncaught, st3)
                | Some (ram_str, cpu_str, default_storage) \<Rightarrow>
                   (let storage_gb = pick_storage sto default_storage in
                    (case py_int (remove_GB ram_str) of
                       None \<Rightarrow> (Inl Uncaught, st3)
                     | Some ram_gb \<Rightarrow>
                         if progress_send e \<noteq> Delivered then (Inl Uncaught, st3)
                         else
                          (case py_int cpu_str of
                             None \<Rightarrow> (Inl PurchaseFailed, refund user_id cost st3)
                           | Some cpu_n \<Rightarrow>
                              (let (ok, st4) =
                                     core_create_container e name ram_gb cpu_n storage_gb
                                       ''btrpool'' st3
                               in
                                 if \<not> ok then (Inl PurchaseFailed, refund user_id cost st4)
                                 else
                                   let vps_info =
                                         \<lparr>plan = Some pl', container_name = name,
                                          ram = ram_str, cpu = cpu_str,
                                          storage = str_int storage_gb @ ''GB'',
                                          status = ''running'', created_at = now e,
                                          processor = Some processor_key, shared_with = []\<rparr>;
                                       st5 = save_data
                                         (st4\<lparr>vps_data :=
                                            AList.update user_id
                                              (vps_list (vps_data st4) user_id @ [vps_info])
                                              (vps_data st4)\<rparr>)
                                   in
                                     if notify e then (Inr vps_info, st5)
                                     else (Inl PurchaseFailed, refund user_id cost st5))))))))"

section \<open>Sharing and deleting\<close>

text \<open>
  \<open>share_user\<close> (lines 692-713). The caller is the owner: the record is looked up in the
  caller's own list.
\<close>

definition share_user :: "nat \<Rightarrow> nat \<Rightarrow> int \<Rightarrow> store \<Rightarrow> (error + unit) \<times> store" where
  "share_user author shared_user vps_number st =
     (let user_id = str_nat author; shared_user_id = str_nat shared_user in
      case map_of (vps_data st) user_id of
        None \<Rightarrow> (Inl InvalidVPS, st)
      | Some vs \<Rightarrow>
          if vps_number < 1 \<or> vps_number > int (length vs) then (Inl InvalidVPS, st)
          else
            let i = nat (vps_number - 1); v = vs ! i in
            if shared_user_id \<in> set (shared_with v) then (Inl AlreadyShared, st)
            else
              (Inr (),
               save_data
                 (st\<lparr>vps_data :=
                    AList.update user_id
                      (vs[i := v\<lparr>shared_with := shared_with v @ [shared_user_id]\<rparr>])
                      (vps_data st)\<rparr>)))"

text \<open>\<open>revoke_share\<close> (lines 716-737); \<open>list.remove\<close> takes out the first occurrence.\<close>

definition revoke_share :: "nat \<Rightarrow> nat \<Rightarrow> int \<Rightarrow> store \<Rightarrow> (error + unit) \<times> store" where
  "revoke_share author shared_user vps_number st =
     (let user_id = str_nat author; shared_user_id = str_nat shared_user in
      case map_of (vps_data st) user_id of
        None \<Rightarrow> (Inl InvalidVPS, st)
      | Some vs \<Rightarrow>
          if vps_number < 1 \<or> vps_number > int (length vs) then (Inl InvalidVPS, st)
          else
            let i = nat (vps_number - 1); v = vs ! i in
            if shared_user_id \<notin> set (shared_with v) then (Inl NotShared, st)
            else
              (Inr (),
               save_data
                 (st\<lparr>vps_data :=
                    AList.update user_id
                      (vs[i := v\<lparr>shared_with := remove1 shared_user_id (shared_with v)\<rparr>])
                      (vps_data st)\<rparr>)))"

text \<open>
  \<open>delete_vps\<close> (lines 756-789), after the admin check. \<open>del vps_data[user_id][n - 1]\<close>
  closes the gap in the list; an emptied list is removed with its key, and the role is
  then taken from the user before the flush.
\<close>

definition delete_vps :: "env \<Rightarrow> nat \<Rightarrow> int \<Rightarrow> store \<Rightarrow> (error + unit) \<times> store" where
  "delete_vps e user vps_number st =
     (let user_id = str_nat user in
      case map_of (vps_data st) user_id of
        None \<Rightarrow> (Inl InvalidVPS, st)
      | Some vs \<Rightarrow>
          if vps_number < 1 \<or> vps_number > int (length vs) then (Inl InvalidVPS, st)
          else
            let i = nat (vps_number - 1); name = container_name (vs ! i) in
            if progress_send e \<noteq> Delivered then (Inl Uncaught, st)
            else
              let (ok, st1) = execute_lxc e (''lxc delete '' @ name @ '' --force'') st in
              if \<not> ok then (Inl DeletionFailed, st1)
              else
                let vs' = take i vs @ drop (Suc i) vs;
                    st2 = st1\<lparr>vps_data :=
                            (if vs' = [] then AList.delete user_id (vps_data st1)
                             else AList.update user_id vs' (vps_data st1))\<rparr>
                in
                  if vs' = [] \<and> guild_role e = Some HTTPError then (Inl DeletionFailed, st2)
                  else
                    let st3 = save_data st2 in
                    if result_send e = Delivered then (Inr (), st3)
                    else (Inl DeletionFailed, st3))"

section \<open>Resizing\<close>

definition memory_command :: "string \<Rightarrow> int \<Rightarrow> string" where
  "memory_command container ram_gb =
     ''lxc config set '' @ container @ '' limits.memory '' @ str_int (ram_gb * 1024) @ ''MB''"

definition cpu_command :: "string \<Rightarrow> int \<Rightarrow> string" where
  "cpu_command container cpu_n = ''lxc config set '' @ container @ '' limits.cpu '' @ str_int cpu_n"

text \<open>The body of the loops at lines 1077-1080, for one record.\<close>

definition set_storage :: "string \<Rightarrow> int \<Rightarrow> vps \<Rightarrow> vps" where
  "set_storage container storage_gb v =
     (if container_name v = container then v\<lparr>storage := str_int storage_gb @ ''GB''\<rparr> else v)"

text \<open>
  \<open>resize_vps\<close> (lines 1066-1084), after the admin check. \<open>if ram:\<close> is Python's truth
  test: an absent argument and 0 both skip the dimension. The three dimensions run in one
  \<open>try\<close> block, in this order; \<open>save_data\<close> follows them and the success embed is
  the last statement of the block.
\<close>

definition resize_vps ::
  "env \<Rightarrow> string \<Rightarrow> int option \<Rightarrow> int option \<Rightarrow> int option \<Rightarrow> store \<Rightarrow> (error + unit) \<times> store" where
  "resize_vps e container ram_o cpu_o storage_o st =
     (let (ok1, st1) =
            (case ram_o of
               None \<Rightarrow> (True, st)
             | Some r \<Rightarrow> if r = 0 then (True, st) else execute_lxc e (memory_command container r) st)
      in
        if \<not> ok1 then (Inl ResizeFailed, st1)
        else
          let (ok2, st2) =
                (case cpu_o of
                   None \<Rightarrow> (True, st1)
                 | Some c \<Rightarrow> if c = 0 then (True, st1) else execute_lxc e (cpu_command container c) st1)
          in
            if \<not> ok2 then (Inl ResizeFailed, st2)
            else
              let (ok3, st3) =
                    (case storage_o of
                       None \<Rightarrow> (True, st2)
                     | Some s \<Rightarrow>
                         if s = 0 then (True, st2)
                         else
                           let (ok, st') = set_root_disk_size e container s st2 in
                           if \<not> ok then (False, st')
                           else
                             (True,
                              st'\<lparr>vps_data :=
                                   map (\<lambda>(user_id, vs). (user_id, map (set_storage container s) vs))
                                     (vps_data st')\<rparr>))
              in
                if \<not> ok3 then (Inl ResizeFailed, st3)
                else if result_send e = Delivered then (Inr (), save_data st3)
                else (Inl ResizeFailed, save_data st3))"

section \<open>Credits\<close>

text \<open>\<open>admin_credits\<close> (lines 1089-1098).\<close>

definition admin_credits :: "nat \<Rightarrow> int \<Rightarrow> store \<Rightarrow> (error + unit) \<times> store" where
  "admin_credits user amount st =
     (if amount \<le> 0 then (Inl InvalidAmount, st)
      else
        let user_id = str_nat user; st1 = ensure_user user_id st in
        (Inr (),
         save_data
           (st1\<lparr>user_data :=
              AList.update user_id (credits_of (user_data st1) user_id + amount) (user_data st1)\<rparr>)))"

text \<open>\<open>admin_remove_credits\<close> (lines 1102-1126).\<close>

definition admin_remove_credits :: "nat \<Rightarrow> string \<Rightarrow> store \<Rightarrow> (error + unit) \<times> store" where
  "admin_remove_credits user amount_or_all st =
     (let user_id = str_nat user;
          st1 = ensure_user user_id st;
          current_credits = credits_of (user_data st1) user_id
      in
        if lower amount_or_all = ''all'' then
          (Inr (), save_data (st1\<lparr>user_data := AList.update user_id 0 (user_data st1)\<rparr>))
        else
          (case py_int amount_or_all of
             None \<Rightarrow> (Inl InvalidAmount, st1)
           | Some amount \<Rightarrow>
               if amount \<le> 0 then (Inl InvalidAmount, st1)
               else
                 let amount' = (if amount > current_credits then current_credits else amount) in
                 (Inr (),
                  save_data
                    (st1\<lparr>user_data :=
                       AList.update user_id (current_credits - amount') (user_data st1)\<rparr>))))"

section \<open>Start, stop, reinstall, restart\<close>

text \<open>
  The actions of \<open>ManageView.action_callback\<close> (lines 316-399), on the record at a
  position of an owner's list, after the view's access check. A position outside the list
  is Python's IndexError, which no handler of the callback catches.
\<close>

definition set_status :: "string \<Rightarrow> vps \<Rightarrow> vps" where
  "set_status s v = v\<lparr>status := s\<rparr>"

definition start_vps :: "env \<Rightarrow> string \<Rightarrow> nat \<Rightarrow> store \<Rightarrow> (error + unit) \<times> store" where
  "start_vps e owner_id index st =
     (case map_of (vps_data st) owner_id of
        None \<Rightarrow> (Inl Uncaught, st)
      | Some vs \<Rightarrow>
          if length vs \<le> index \<or> progress_send e \<noteq> Delivered then (Inl Uncaught, st)
          else
            let v = vs ! index;
                (ok, st1) = execute_lxc e (''lxc start '' @ container_name v) st
            in
              if \<not> ok then (Inl StartFailed, st1)
              else
                let st2 = save_data
                      (st1\<lparr>vps_data :=
                         AList.update owner_id (vs[index := set_status ''running'' v])
                           (vps_data st1)\<rparr>)
                in if result_send e = Delivered then (Inr (), st2) else (Inl StartFailed, st2))"

definition stop_vps :: "env \<Rightarrow> string \<Rightarrow> nat \<Rightarrow> store \<Rightarrow> (error + unit) \<times> store" where
  "stop_vps e owner_id index st =
     (case map_of (vps_data st) owner_id of
        None \<Rightarrow> (Inl Uncaught, st)
      | Some vs \<Rightarrow>
          if length vs \<le> index \<or> progress_send e \<noteq> Delivered then (Inl Uncaught, st)
          else
            let v = vs ! index;
                (ok, st1) = execute_lxc e (''lxc stop '' @ container_name v) st
            in
              if \<not> ok then (Inl StopFailed, st1)
              else
                let st2 = save_data
                      (st1\<lparr>vps_data :=
                         AList.update owner_id (vs[index := set_status ''stopped'' v])
                           (vps_data st1)\<rparr>)
                in if result_send e = Delivered then (Inr (), st2) else (Inl StopFailed, st2))"

text \<open>The \<open>confirm\<close> button of the reinstall dialogue (lines 347-371).\<close>

definition reinstall_vps :: "env \<Rightarrow> string \<Rightarrow> nat \<Rightarrow> store \<Rightarrow> (error + unit) \<times> store" where
  "reinstall_vps e owner_id index st =
     (case map_of (vps_data st) owner_id of
        None \<Rightarrow> (Inl Uncaught, st)
      | Some vs \<Rightarrow>
          if length vs \<le> index then (Inl Uncaught, st)
          else if progress_send e \<noteq> Delivered then (Inl ReinstallFailed, st)
          else
            let v = vs ! index;
                name = container_name v;
                (ok1, st1) = execute_lxc e (''lxc delete '' @ name @ '' --force'') st
            in
              if \<not> ok1 \<or> step_send e \<noteq> Delivered then (Inl ReinstallFailed, st1)
              else
               (case py_int (remove_GB (ram v)) of
                  None \<Rightarrow> (Inl ReinstallFailed, st1)
                | Some ram_gb \<Rightarrow>
                   (case py_int (remove_GB (storage v)) of
                      None \<Rightarrow> (Inl ReinstallFailed, st1)
                    | Some storage_gb \<Rightarrow>
                       (let (ok2, st2) =
                              execute_lxc e (launch_command name (ram_gb * 1024) (cpu v) ''btrpool'') st1
                        in
                          if \<not> ok2 then (Inl ReinstallFailed, st2)
                          else
                            let (ok3, st3) = set_root_disk_size e name storage_gb st2 in
                            if \<not> ok3 then (Inl ReinstallFailed, st3)
                            else
                              let st4 = save_data
                                    (st3\<lparr>vps_data :=
                                       AList.update owner_id
                                         (vs[index := v\<lparr>status := ''running'',
                                                          created_at := now e\<rparr>])
                                         (vps_data st3)\<rparr>)
                              in if result_send e = Delivered then (Inr (), st4)
                                 else (Inl ReinstallFailed, st4)))))"

text \<open>
  The loops of \<open>restart_vps\<close> (lines 906-911): in every owner's list the first record of
  that name is set to running and the store is flushed; \<open>break\<close> leaves the inner loop
  only.
\<close>

fun mark_first :: "string \<Rightarrow> vps list \<Rightarrow> vps list \<times> bool" where
  "mark_first container [] = ([], False)"
| "mark_first container (v # vs) =
     (if container_name v = container then (set_status ''running'' v # vs, True)
      else let (vs', found) = mark_first container vs in (v # vs', found))"

fun restart_mark :: "string \<Rightarrow> (string \<times> vps list) list \<Rightarrow> (string \<times> vps list) list \<times> nat" where
  "restart_mark container [] = ([], 0)"
| "restart_mark container ((user_id, vs) # rest) =
     (let (vs', found) = mark_first container vs;
          (rest', n) = restart_mark container rest
      in ((user_id, vs') # rest', (if found then 1 else 0) + n))"

text \<open>\<open>restart_vps\<close> (lines 901-914), after the admin check.\<close>

definition restart_vps :: "env \<Rightarrow> string \<Rightarrow> store \<Rightarrow> (error + unit) \<times> store" where
  "restart_vps e container st =
     (if progress_send e \<noteq> Delivered then (Inl Uncaught, st)
      else
        let (ok, st1) = execute_lxc e (''lxc restart '' @ container) st in
        if \<not> ok then (Inl RestartFailed, st1)
        else
          let (tbl, n) = restart_mark container (vps_data st1);
              st2 = st1\<lparr>vps_data := tbl, flushes := flushes st1 + n\<rparr>
          in if result_send e = Delivered then (Inr (), st2) else (Inl RestartFailed, st2))"

section \<open>Stopping every container\<close>

text \<open>The body of the loops at lines 180-183 and 1020-1023, for one record.\<close>

definition stop_running :: "vps \<Rightarrow> vps" where
  "stop_running v = (if status v = ''running'' then v\<lparr>status := ''stopped''\<rparr> else v)"

definition mark_all_stopped :: "(string \<times> vps list) list \<Rightarrow> (string \<times> vps list) list" where
  "mark_all_stopped tbl = map (\<lambda>(user_id, vs). (user_id, map stop_running vs)) tbl"

definition stop_all_command :: string where
  "stop_all_command = ''lxc stop --all --force''"

text \<open>
  The \<open>confirm\<close> button of \<open>stop_all_vps\<close> (lines 1009-1035); the records are marked
  when the runtime's exit code is 0.
\<close>

definition stop_all_vps :: "env \<Rightarrow> store \<Rightarrow> (error + unit) \<times> store" where
  "stop_all_vps e st =
     (if progress_send e \<noteq> Delivered then (Inl Uncaught, st)
      else
        let (ok, st1) = execute_lxc e stop_all_command st in
        if \<not> ok then (Inl StopFailed, st1)
        else
          let st2 = save_data (st1\<lparr>vps_data := mark_all_stopped (vps_data st1)\<rparr>) in
          if result_send e = Delivered then (Inr (), st2) else (Inl StopFailed, st2))"

section \<open>The CPU monitor\<close>

text \<open>
  \<open>get_cpu_usage\<close> (lines 151-168). Its input is the idle percentage read from the
  output of \<open>top\<close>, or \<open>None\<close> when the call or the parsing failed; every failure is
  caught inside the function and gives 0.
\<close>

definition get_cpu_usage :: "real option \<Rightarrow> real" where
  "get_cpu_usage top_idle = (case top_idle of None \<Rightarrow> 0 | Some idle \<Rightarrow> 100 - idle)"

text \<open>
  One arrival of the monitor thread at the head of the loop of \<open>cpu_monitor\<close>
  (lines 172-190), the sleep of the round before being over. A thread that has left the
  loop does nothing any more. With the flag off, the loop condition fails and the thread
  function returns. Otherwise one round runs: sample, compare with the threshold, and on
  overload run the stop-all command (\<open>subprocess.run\<close> with \<open>check=True\<close>); when that
  raises, the \<open>except\<close> of line 185 logs it and the marking and the flush are skipped.
\<close>

definition cpu_monitor_round :: "env \<Rightarrow> real option \<Rightarrow> store \<Rightarrow> store" where
  "cpu_monitor_round e top_idle st =
     (if \<not> cpu_thread_alive st then st
      else if \<not> cpu_monitor_active st then st\<lparr>cpu_thread_alive := False\<rparr>
      else
        let st1 = st\<lparr>samples := samples st + 1\<rparr>;
            cpu_usage = get_cpu_usage top_idle
        in
          if cpu_usage > CPU_THRESHOLD then
            (let (ok, st2) = execute_lxc e stop_all_command st1 in
             if \<not> ok then st2
             else save_data (st2\<lparr>vps_data := mark_all_stopped (vps_data st2)\<rparr>))
          else st1)"

text \<open>\<open>cpu_monitor_control\<close> (lines 1046-1061), after the admin check.\<close>

definition cpu_monitor_control :: "string \<Rightarrow> store \<Rightarrow> store" where
  "cpu_monitor_control action st =
     (if lower action = ''status'' then st
      else if lower action = ''enable'' then st\<lparr>cpu_monitor_active := True\<rparr>
      else if lower action = ''disable'' then st\<lparr>cpu_monitor_active := False\<rparr>
      else st)"

text \<open>
  The process over time, as far as the monitor is concerned: the monitor thread arrives
  at the head of its loop (\<open>Wake\<close>, with what the runtime and \<open>top\<close> answer in that round),
  or an admin runs \<open>.cpu-monitor\<close> (\<open>Control\<close>). Each is one step; \<open>run\<close> takes them in
  the order they happen.
\<close>

datatype event = Wake env "real option" | Control string

fun step :: "event \<Rightarrow> store \<Rightarrow> store" where
  "step (Wake e top_idle) st = cpu_monitor_round e top_idle st"
| "step (Control action) st = cpu_monitor_control action st"

fun run :: "event list \<Rightarrow> store \<Rightarrow> store" where
  "run [] st = st"
| "run (ev # evs) st = run evs (step ev st)"

text \<open>The state at start-up: empty tables are loaded, the flag is on (line 41) and the
  monitor thread has been started (line 193).\<close>

definition initial :: store where
  "initial =
     \<lparr>user_data = [], vps_data = [], flushes = 0, lxc_log = [],
      cpu_monitor_active = True, cpu_thread_alive = True, samples = 0\<rparr>"

section \<open>Auxiliary definitions\<close>

text \<open>The state after the debit and before the provisioning.\<close>

definition debited :: "string \<Rightarrow> int \<Rightarrow> store \<Rightarrow> store" where
  "debited user_id cost st =
     ensure_vps_list user_id
       ((ensure_user user_id st)\<lparr>user_data :=
           AList.update user_id (credits_of (user_data st) user_id - cost)
             (user_data (ensure_user user_id st))\<rparr>)"


text \<open>An environment in which every runtime command and every chat call succeeds.\<close>

definition env_ok :: env where
  "env_ok =
     \<lparr>lxc_ok = (\<lambda>c. True), now = ''2024-05-01T12:00:00'', progress_send = Delivered,
      step_send = Delivered, guild_role = Some Delivered, result_send = Delivered,
      dm_send = Delivered, dm_fallback_send = Delivered\<rparr>"

text \<open>The same, but the send of the success embed raises.\<close>

definition env_result_lost :: env where
  "env_result_lost = env_ok\<lparr>result_send := HTTPError\<rparr>"

text \<open>The same, but the send of the progress embed raises.\<close>

definition env_progress_lost :: env where
  "env_progress_lost = env_ok\<lparr>progress_send := HTTPError\<rparr>"

text \<open>The store after an admin has granted 100 credits to user 1 on a fresh start.\<close>

definition funded :: store where
  "funded = snd (admin_credits 1 100 initial)"

text \<open>An environment in which the runtime refuses the stop-all command and accepts every
  other one.\<close>

definition env_stop_refused :: env where
  "env_stop_refused = env_ok\<lparr>lxc_ok := (\<lambda>c. c \<noteq> stop_all_command)\<rparr>"

text \<open>A record made by hand, and a store that holds three of them for two owners.\<close>

definition example_vps :: "string \<Rightarrow> string \<Rightarrow> string \<Rightarrow> vps" where
  "example_vps name st created =
     \<lparr>plan = None, container_name = name, ram = ''2GB'', cpu = ''1'', storage = ''10GB'',
      status = st, created_at = created, processor = None, shared_with = []\<rparr>"

definition fleet :: store where
  "fleet =
     initial\<lparr>vps_data :=
       [(''7'', [example_vps ''vps-7-1'' ''running'' ''2024-01-01T08:00:00'',
                example_vps ''vps-7-2'' ''stopped'' ''2024-02-02T09:30:00'']),
        (''8'', [example_vps ''vps-8-1'' ''running'' ''2024-03-03T10:45:00''])]\<rparr>"

text \<open>What the stop-all marking does to one record: only the status can change.\<close>

definition stopped_version :: "vps \<Rightarrow> vps \<Rightarrow> bool" where
  "stopped_version v v' =
     (v' = v\<lparr>status := (if status v = ''running'' then ''stopped'' else status v)\<rparr>)"








text \<open>
  The commands that write to the store, each with the environment it runs in, and the
  store they leave behind. \<open>Start\<close>, \<open>Stop\<close> and \<open>Reinstall\<close> are the buttons of the
  management view, \<open>Monitor\<close> is one round of the monitor thread.
\<close>

datatype command =
    Create env nat int int int
  | Buy env nat string string "int option"
  | Share nat nat int
  | Revoke nat nat int
  | Delete env nat int
  | Resize env string "int option" "int option" "int option"
  | AdminCredits nat int
  | AdminRemoveCredits nat string
  | Start env string nat
  | Stop env string nat
  | Reinstall env string nat
  | Restart env string
  | StopAll env
  | Monitor env "real option"
  | MonitorControl string

fun exec :: "command \<Rightarrow> store \<Rightarrow> store" where
  "exec (Create e user ram_gb cpu_n storage_gb) st = snd (create_vps e user ram_gb cpu_n storage_gb st)"
| "exec (Buy e author pl prc sto) st = snd (buy_with_credits e author pl prc sto st)"
| "exec (Share author shared_user n) st = snd (share_user author shared_user n st)"
| "exec (Revoke author shared_user n) st = snd (revoke_share author shared_user n st)"
| "exec (Delete e user n) st = snd (delete_vps e user n st)"
| "exec (Resize e container ram_o cpu_o storage_o) st =
     snd (resize_vps e container ram_o cpu_o storage_o st)"
| "exec (AdminCredits user amount) st = snd (admin_credits user amount st)"
| "exec (AdminRemoveCredits user amount_or_all) st = snd (admin_remove_credits user amount_or_all st)"
| "exec (Start e owner_id index) st = snd (start_vps e owner_id index st)"
| "exec (Stop e owner_id index) st = snd (stop_vps e owner_id index st)"
| "exec (Reinstall e owner_id index) st = snd (reinstall_vps e owner_id index st)"
| "exec (Restart e container) st = snd (restart_vps e container st)"
| "exec (StopAll e) st = snd (stop_all_vps e st)"
| "exec (Monitor e top_idle) st = cpu_monitor_round e top_idle st"
| "exec (MonitorControl action) st = cpu_monitor_control action st"

text \<open>A user sharing a record with themselves.\<close>

fun is_self_share :: "command \<Rightarrow> bool" where
  "is_self_share (Share author shared_user n) = (shared_user = author)"
| "is_self_share _ = False"

text \<open>No record is shared with its owner, the key its list is stored under.\<close>

definition no_owner_in_shares :: "(string \<times> vps list) list \<Rightarrow> bool" where
  "no_owner_in_shares tbl =
     list_all (\<lambda>(user_id, vs). list_all (\<lambda>v. user_id \<notin> set (shared_with v)) vs) tbl"

definition no_self_share :: "store \<Rightarrow> bool" where
  "no_self_share st = no_owner_in_shares (vps_data st)"

text \<open>Every container name in the store, owner by owner.\<close>

definition all_names :: "(string \<times> vps list) list \<Rightarrow> string list" where
  "all_names tbl = concat (map (\<lambda>(user_id, vs). map container_name vs) tbl)"

text \<open>
  A table as a run of creations and purchases without deletions leaves it: the keys are
  distinct and hold no dash (they are decimal user ids), and the records of every owner
  are named with the numbers 1, 2, ... in the order of their list.
\<close>

definition well_numbered :: "(string \<times> vps list) list \<Rightarrow> bool" where
  "well_numbered tbl =
     (distinct (map fst tbl) \<and>
      list_all
        (\<lambda>(user_id, vs).
           CHR ''-'' \<notin> set user_id \<and>
           map container_name vs = map (vps_name user_id) [1..<length vs + 1])
        tbl)"

text \<open>The store after three containers have been created for user 7 on a fresh start.\<close>

definition three_vps :: store where
  "three_vps =
     snd (create_vps env_ok 7 2 1 10
       (snd (create_vps env_ok 7 2 1 10
         (snd (create_vps env_ok 7 2 1 10 initial)))))"

section \<open>Auxiliary facts\<close>

subsection \<open>Decimal rendering and case mapping\<close>

lemma is_digit_char_of: "(d::nat) < 10 \<Longrightarrow> is_digit (char_of (48 + d))"
  by (simp add: is_digit_def)

lemma str_nat_digits: "list_all is_digit (str_nat n)"
proof (induction n rule: str_nat.induct)
  case (1 n)
  show ?case
  proof (cases "n < 10")
    case True
    then show ?thesis by (subst str_nat.simps) (simp add: is_digit_char_of)
  next
    case False
    with 1 show ?thesis by (subst str_nat.simps) (simp add: is_digit_char_of)
  qed
qed

lemma str_nat_not_empty: "str_nat n \<noteq> []"
  by (subst str_nat.simps) simp

lemma digits_val_snoc: "digits_val (s @ [c]) = 10 * digits_val s + ((of_char c :: nat) - 48)"
  by (simp add: digits_val_def)

lemma digits_val_str_nat: "digits_val (str_nat n) = n"
proof (induction n rule: str_nat.induct)
  case (1 n)
  show ?case
  proof (cases "n < 10")
    case True
    then show ?thesis by (subst str_nat.simps) (simp add: digits_val_def)
  next
    case False
    with 1 have "digits_val (str_nat (n div 10)) = n div 10" by simp
    with False show ?thesis
      by (subst str_nat.simps) (simp add: digits_val_snoc)
  qed
qed

lemma str_nat_inj: "str_nat m = str_nat n \<Longrightarrow> m = n"
  by (metis digits_val_str_nat)

lemma dash_not_digit: "\<not> is_digit (CHR ''-'')"
  by (simp add: is_digit_def)

lemma dash_notin_str_nat: "CHR ''-'' \<notin> set (str_nat n)"
  using str_nat_digits [of n] dash_not_digit by (auto simp: list_all_iff)

lemma split_at_sep:
  assumes "xs @ c # ys = xs' @ c # ys'" and "c \<notin> set xs" and "c \<notin> set xs'"
  shows "xs = xs' \<and> ys = ys'"
  using assms
proof (induction xs arbitrary: xs')
  case Nil
  then show ?case by (cases xs') auto
next
  case (Cons a xs)
  then show ?case by (cases xs') auto
qed

lemma vps_name_inj:
  assumes "vps_name (str_nat a) m = vps_name (str_nat b) n"
  shows "a = b \<and> m = n"
proof -
  from assms have "str_nat a @ CHR ''-'' # str_nat m = str_nat b @ CHR ''-'' # str_nat n"
    by (simp add: vps_name_def)
  then have "str_nat a = str_nat b \<and> str_nat m = str_nat n"
    by (rule split_at_sep) (rule dash_notin_str_nat)+
  then show ?thesis by (auto dest: str_nat_inj)
qed

lemma of_char_upper_char:
  "(of_char (upper_char c) :: nat) =
     (if 97 \<le> (of_char c :: nat) \<and> (of_char c :: nat) \<le> 122 then of_char c - 32 else of_char c)"
  by (auto simp add: upper_char_def Let_def)

lemma of_char_lower_char:
  "(of_char (lower_char c) :: nat) =
     (if 65 \<le> (of_char c :: nat) \<and> (of_char c :: nat) \<le> 90 then of_char c + 32 else of_char c)"
  by (auto simp add: lower_char_def Let_def)

lemma char_eq_nat: "(c = d) = ((of_char c :: nat) = of_char d)"
  by simp

lemma upper_A_iff: "upper_char c = CHR ''A'' \<longleftrightarrow> lower_char c = CHR ''a''"
  by (simp add: char_eq_nat [of _ "CHR ''A''"] char_eq_nat [of _ "CHR ''a''"] of_char_upper_char of_char_lower_char) arith

lemma upper_I_iff: "upper_char c = CHR ''I'' \<longleftrightarrow> lower_char c = CHR ''i''"
  by (simp add: char_eq_nat [of _ "CHR ''I''"] char_eq_nat [of _ "CHR ''i''"] of_char_upper_char of_char_lower_char) arith

lemma lower_not_M: "lower_char c \<noteq> CHR ''M''"
  by (simp add: char_eq_nat [of _ "CHR ''M''"] of_char_lower_char) arith

lemma capitalize_Amd: "capitalize s = ''Amd'' \<longleftrightarrow> lower s = ''amd''"
  by (cases s) (simp_all add: lower_def upper_A_iff)

lemma capitalize_Intel: "capitalize s = ''Intel'' \<longleftrightarrow> lower s = ''intel''"
  by (cases s) (simp_all add: lower_def upper_I_iff)

lemma capitalize_not_AMD: "capitalize s \<noteq> ''AMD''"
proof (cases s)
  case Nil
  then show ?thesis by simp
next
  case (Cons c cs)
  show ?thesis
  proof (cases cs)
    case Nil
    with Cons show ?thesis by simp
  next
    case (Cons d ds)
    with \<open>s = c # cs\<close> show ?thesis by (simp add: lower_not_M)
  qed
qed

subsection \<open>The catalogue and the order\<close>

lemma PRICES_keys:
  "map_of PRICES p \<noteq> None \<longleftrightarrow> p \<in> set [''Starter'', ''Basic'', ''Standard'', ''Pro'']"
  by (simp add: PRICES_def)

lemma price_Intel_AMD:
  assumes "p \<in> set [''Starter'', ''Basic'', ''Standard'', ''Pro'']"
  shows "\<exists>a b. price p ''Intel'' = Some a \<and> price p ''AMD'' = Some b"
  using assms by (auto simp: price_def PRICES_def)

lemma startswith_upper_Amd: "startswith (upper ''Amd'') ''A''"
  by code_simp

lemma startswith_upper_Intel: "\<not> startswith (upper ''Intel'') ''A''"
  by code_simp

lemma resolve_order_eq:
  "resolve_order pl prc =
     (if capitalize pl \<notin> set [''Starter'', ''Basic'', ''Standard'', ''Pro''] then Inl InvalidPlan
      else if lower prc = ''intel'' then
        (case price (capitalize pl) ''Intel'' of None \<Rightarrow> Inl Uncaught
         | Some cost \<Rightarrow> Inr (capitalize pl, ''Intel'', cost))
      else if lower prc = ''amd'' then
        (case price (capitalize pl) ''AMD'' of None \<Rightarrow> Inl Uncaught
         | Some cost \<Rightarrow> Inr (capitalize pl, ''AMD'', cost))
      else Inl InvalidProcessor)"
proof (cases "map_of PRICES (capitalize pl)")
  case None
  then show ?thesis using PRICES_keys [of "capitalize pl"] by (simp add: resolve_order_def Let_def)
next
  case (Some row)
  then have k: "capitalize pl \<in> set [''Starter'', ''Basic'', ''Standard'', ''Pro'']"
    using PRICES_keys [of "capitalize pl"] by simp
  consider (i) "capitalize prc = ''Intel''" | (a) "capitalize prc = ''Amd''"
    | (n) "capitalize prc \<noteq> ''Intel''" "capitalize prc \<noteq> ''Amd''" by blast
  then show ?thesis
  proof cases
    case i
    then have "lower prc = ''intel''" by (simp add: capitalize_Intel)
    with i Some k show ?thesis
      using startswith_upper_Intel by (simp add: resolve_order_def price_def Let_def)
  next
    case a
    then have "lower prc = ''amd''" "lower prc \<noteq> ''intel''" by (simp_all add: capitalize_Amd)
    with a Some k show ?thesis
      using startswith_upper_Amd by (simp add: resolve_order_def price_def Let_def)
  next
    case n
    then have "lower prc \<noteq> ''intel''" "lower prc \<noteq> ''amd''"
      by (simp_all add: capitalize_Intel capitalize_Amd)
    with n Some k show ?thesis
      using capitalize_not_AMD [of prc] by (simp add: resolve_order_def Let_def)
  qed
qed

subsection \<open>Tables and purchase\<close>

lemma core_create_container_eq:
  "core_create_container e n r c s p st =
     (lxc_ok e (launch_command n (r * 1024) (str_int c) p) \<and> lxc_ok e (quota_command n s),
      st\<lparr>lxc_log := lxc_log st @
         (if lxc_ok e (launch_command n (r * 1024) (str_int c) p)
          then (if lxc_ok e (quota_command n s)
                then [launch_command n (r * 1024) (str_int c) p, quota_command n s, grow_command n]
                else [launch_command n (r * 1024) (str_int c) p, quota_command n s])
          else [launch_command n (r * 1024) (str_int c) p])\<rparr>)"
  by (simp add: core_create_container_def set_root_disk_size_def execute_lxc_def Let_def)

lemma credits_of_update [simp]:
  "credits_of (AList.update u c tbl) u' = (if u' = u then c else credits_of tbl u')"
  by (simp add: credits_of_def update_conv')

lemma vps_list_update [simp]:
  "vps_list (AList.update u vs tbl) u' = (if u' = u then vs else vps_list tbl u')"
  by (simp add: vps_list_def update_conv')

lemma vps_list_delete [simp]:
  "vps_list (AList.delete u tbl) u' = (if u' = u then [] else vps_list tbl u')"
  by (simp add: vps_list_def delete_conv')

lemma credits_of_ensure_user [simp]:
  "credits_of (user_data (ensure_user u st)) u' = credits_of (user_data st) u'"
  by (simp add: ensure_user_def) (simp add: credits_of_def)

lemma ensure_user_fields [simp]:
  "vps_data (ensure_user u st) = vps_data st"
  "flushes (ensure_user u st) = flushes st"
  "lxc_log (ensure_user u st) = lxc_log st"
  "cpu_monitor_active (ensure_user u st) = cpu_monitor_active st"
  "cpu_thread_alive (ensure_user u st) = cpu_thread_alive st"
  "samples (ensure_user u st) = samples st"
  by (simp_all add: ensure_user_def)

lemma vps_list_ensure_vps_list [simp]:
  "vps_list (vps_data (ensure_vps_list u st)) u' = vps_list (vps_data st) u'"
  by (simp add: ensure_vps_list_def) (simp add: vps_list_def)

lemma ensure_vps_list_fields [simp]:
  "user_data (ensure_vps_list u st) = user_data st"
  "flushes (ensure_vps_list u st) = flushes st"
  "lxc_log (ensure_vps_list u st) = lxc_log st"
  "cpu_monitor_active (ensure_vps_list u st) = cpu_monitor_active st"
  "cpu_thread_alive (ensure_vps_list u st) = cpu_thread_alive st"
  "samples (ensure_vps_list u st) = samples st"
  by (simp_all add: ensure_vps_list_def)

lemma PLANS_parse:
  assumes "map_of PRICES p \<noteq> None"
  shows "\<exists>rs cs d r c. map_of PLANS p = Some (rs, cs, d) \<and> py_int (remove_GB rs) = Some r \<and>
           py_int cs = Some c \<and> 0 < d"
proof -
  have 1: "py_int (remove_GB ''4GB'') = Some 4" "py_int (remove_GB ''8GB'') = Some 8"
    "py_int (remove_GB ''12GB'') = Some 12" "py_int (remove_GB ''16GB'') = Some 16"
    "py_int ''1'' = Some 1" "py_int ''2'' = Some 2"
    by code_simp+
  from assms have "p \<in> set [''Starter'', ''Basic'', ''Standard'', ''Pro'']"
    using PRICES_keys [of p] by blast
  then show ?thesis using 1 by (auto simp: PLANS_def)
qed

lemma resolve_order_InrD:
  assumes "resolve_order pl prc = Inr (p, k, cost)"
  shows "map_of PRICES p \<noteq> None \<and> price p k = Some cost \<and> p = capitalize pl"
  using assms by (auto simp: resolve_order_def Let_def split: if_splits option.splits)

lemma buy_insufficient:
  assumes "resolve_order pl prc = Inr (p, k, cost)"
      and "credits_of (user_data st) (str_nat author) < cost"
  shows "buy_with_credits e author pl prc sto st =
           (Inl InsufficientCredits, ensure_user (str_nat author) st)"
  using assms by (simp add: buy_with_credits_def Let_def)

lemma buy_sufficient:
  assumes "resolve_order pl prc = Inr (p, k, cost)"
      and "\<not> credits_of (user_data st) (str_nat author) < cost"
      and "map_of PLANS p = Some (rs, cs, d)" "py_int (remove_GB rs) = Some r" "py_int cs = Some c"
  shows "buy_with_credits e author pl prc sto st =
   (let user_id = str_nat author;
        name = vps_name user_id (length (vps_list (vps_data st) user_id) + 1);
        st3 = debited user_id cost st;
        vps_info = \<lparr>plan = Some p, container_name = name, ram = rs, cpu = cs,
                    storage = str_int (pick_storage sto d) @ ''GB'', status = ''running'',
                    created_at = now e, processor = Some k, shared_with = []\<rparr>
    in if progress_send e \<noteq> Delivered then (Inl Uncaught, st3)
       else
         let (ok, st4) = core_create_container e name r c (pick_storage sto d) ''btrpool'' st3 in
         if \<not> ok then (Inl PurchaseFailed, refund user_id cost st4)
         else
           let st5 = save_data (st4\<lparr>vps_data :=
                        AList.update user_id (vps_list (vps_data st) user_id @ [vps_info]) (vps_data st4)\<rparr>)
           in if notify e then (Inr vps_info, st5)
              else (Inl PurchaseFailed, refund user_id cost st5))"
  using assms
  by (simp add: buy_with_credits_def debited_def core_create_container_eq Let_def)

lemma debited_simps [simp]:
  "credits_of (user_data (debited u c st)) u' =
     (if u' = u then credits_of (user_data st) u - c else credits_of (user_data st) u')"
  "vps_list (vps_data (debited u c st)) u' = vps_list (vps_data st) u'"
  "flushes (debited u c st) = flushes st"
  "lxc_log (debited u c st) = lxc_log st"
  by (simp_all add: debited_def)

lemma refund_simps [simp]:
  "credits_of (user_data (refund u c st)) u' =
     (if u' = u then credits_of (user_data st) u + c else credits_of (user_data st) u')"
  "vps_data (refund u c st) = vps_data st"
  "flushes (refund u c st) = flushes st + 1"
  "lxc_log (refund u c st) = lxc_log st"
  by (simp_all add: refund_def save_data_def)

text \<open>The four ways a purchase with valid keys and enough credits can end.\<close>

lemma buy_outcomes:
  fixes e :: env and sto :: "int option" and st :: store and author :: nat
  assumes ro: "resolve_order pl prc = Inr (p, k, cost)"
      and cr: "\<not> credits_of (user_data st) (str_nat author) < cost"
      and pl: "map_of PLANS p = Some (rs, cs, d)" "py_int (remove_GB rs) = Some r"
              "py_int cs = Some c"
  defines "uid \<equiv> str_nat author"
  defines "name \<equiv> vps_name uid (length (vps_list (vps_data st) uid) + 1)"
  defines "info \<equiv> \<lparr>plan = Some p, container_name = name, ram = rs, cpu = cs,
                    storage = str_int (pick_storage sto d) @ ''GB'', status = ''running'',
                    created_at = now e, processor = Some k, shared_with = []\<rparr>"
  defines "provisioned \<equiv> lxc_ok e (launch_command name (r * 1024) (str_int c) ''btrpool'') \<and>
                          lxc_ok e (quota_command name (pick_storage sto d))"
  defines "res \<equiv> buy_with_credits e author pl prc sto st"
  shows "progress_send e \<noteq> Delivered \<Longrightarrow>
           fst res = Inl Uncaught \<and>
           credits_of (user_data (snd res)) uid = credits_of (user_data st) uid - cost \<and>
           vps_list (vps_data (snd res)) uid = vps_list (vps_data st) uid \<and>
           flushes (snd res) = flushes st"
    and "progress_send e = Delivered \<Longrightarrow> \<not> provisioned \<Longrightarrow>
           fst res = Inl PurchaseFailed \<and>
           credits_of (user_data (snd res)) uid = credits_of (user_data st) uid \<and>
           vps_list (vps_data (snd res)) uid = vps_list (vps_data st) uid \<and>
           flushes (snd res) = flushes st + 1"
    and "progress_send e = Delivered \<Longrightarrow> provisioned \<Longrightarrow> notify e \<Longrightarrow>
           fst res = Inr info \<and>
           credits_of (user_data (snd res)) uid = credits_of (user_data st) uid - cost \<and>
           vps_list (vps_data (snd res)) uid = vps_list (vps_data st) uid @ [info] \<and>
           flushes (snd res) = flushes st + 1"
    and "progress_send e = Delivered \<Longrightarrow> provisioned \<Longrightarrow> \<not> notify e \<Longrightarrow>
           fst res = Inl PurchaseFailed \<and>
           credits_of (user_data (snd res)) uid = credits_of (user_data st) uid \<and>
           vps_list (vps_data (snd res)) uid = vps_list (vps_data st) uid @ [info] \<and>
           flushes (snd res) = flushes st + 2"
  unfolding res_def provisioned_def info_def name_def uid_def
  by (simp_all add: buy_sufficient [OF ro cr pl] core_create_container_eq Let_def save_data_def)

lemma resolve_order_Inl:
  "resolve_order pl prc = Inl err \<Longrightarrow> err = InvalidPlan \<or> err = InvalidProcessor"
  using price_Intel_AMD [of "capitalize pl"]
  by (auto simp: resolve_order_eq split: if_splits option.splits)

lemma buy_cases:
  fixes e :: env and sto :: "int option" and st :: store and author :: nat
    and pl :: string and prc :: string
  defines "res \<equiv> buy_with_credits e author pl prc sto st"
  defines "uid \<equiv> str_nat author"
  shows "(\<exists>err. resolve_order pl prc = Inl err \<and> res = (Inl err, st)) \<or>
         (\<exists>p k cost rs cs d r c.
            resolve_order pl prc = Inr (p, k, cost) \<and> map_of PLANS p = Some (rs, cs, d) \<and>
            py_int (remove_GB rs) = Some r \<and> py_int cs = Some c \<and>
            (if credits_of (user_data st) uid < cost
             then res = (Inl InsufficientCredits, ensure_user uid st)
             else
               (let name = vps_name uid (length (vps_list (vps_data st) uid) + 1);
                    info = \<lparr>plan = Some p, container_name = name, ram = rs, cpu = cs,
                            storage = str_int (pick_storage sto d) @ ''GB'', status = ''running'',
                            created_at = now e, processor = Some k, shared_with = []\<rparr>
                in (fst res = Inl Uncaught \<and> progress_send e \<noteq> Delivered \<and>
                      vps_data (snd res) = vps_data (debited uid cost st))
                 \<or> (fst res = Inl PurchaseFailed \<and>
                      vps_list (vps_data (snd res)) uid = vps_list (vps_data st) uid)
                 \<or> (fst res = Inl PurchaseFailed \<and> \<not> notify e \<and>
                      vps_list (vps_data (snd res)) uid = vps_list (vps_data st) uid @ [info])
                 \<or> (fst res = Inr info \<and> notify e \<and> progress_send e = Delivered \<and>
                      vps_data (snd res) =
                        AList.update uid (vps_list (vps_data st) uid @ [info])
                          (vps_data (debited uid cost st)) \<and>
                      credits_of (user_data (snd res)) uid =
                        credits_of (user_data st) uid - cost \<and>
                      flushes (snd res) = flushes st + 1))))"
proof (cases "resolve_order pl prc")
  case (Inl err)
  then show ?thesis by (simp add: res_def buy_with_credits_def)
next
  case (Inr t)
  obtain p k cost where t: "t = (p, k, cost)" by (cases t) auto
  with Inr have ro: "resolve_order pl prc = Inr (p, k, cost)" by simp
  then have "map_of PRICES p \<noteq> None" by (simp add: resolve_order_InrD)
  then obtain rs cs d r c where pl: "map_of PLANS p = Some (rs, cs, d)"
    "py_int (remove_GB rs) = Some r" "py_int cs = Some c"
    using PLANS_parse by blast
  show ?thesis
  proof (cases "credits_of (user_data st) uid < cost")
    case True
    then show ?thesis using ro pl buy_insufficient [OF ro, of st author e sto]
      by (simp add: res_def uid_def)
  next
    case False
    then have cr: "\<not> credits_of (user_data st) (str_nat author) < cost" by (simp add: uid_def)
    show ?thesis using ro pl False
      unfolding res_def uid_def
      by (simp add: buy_sufficient [OF ro cr pl] core_create_container_eq Let_def save_data_def)
  qed
qed

lemma pick_storage_nonpos:
  "sto = None \<or> (\<exists>s. sto = Some s \<and> s \<le> 0) \<Longrightarrow> pick_storage sto d = d"
  by (auto simp: pick_storage_def)

subsection \<open>The CPU monitor\<close>

lemma stopped_version_stop_running: "stopped_version v (stop_running v)"
  by (simp add: stopped_version_def stop_running_def)

lemma map_stop_running_rel: "list_all2 stopped_version vs (map stop_running vs)"
  unfolding list_all2_map2 by (rule list_all2_refl) (rule stopped_version_stop_running)

lemma mark_all_stopped_rel:
  "list_all2 (\<lambda>(u, vs) (u', vs'). u' = u \<and> list_all2 stopped_version vs vs')
     tbl (mark_all_stopped tbl)"
  unfolding mark_all_stopped_def list_all2_map2
  by (rule list_all2_refl) (auto simp: map_stop_running_rel)

lemma dead_thread_step:
  "\<not> cpu_thread_alive st \<Longrightarrow>
     \<not> cpu_thread_alive (step ev st) \<and> samples (step ev st) = samples st \<and>
     lxc_log (step ev st) = lxc_log st \<and> vps_data (step ev st) = vps_data st \<and>
     flushes (step ev st) = flushes st"
  by (cases ev) (simp_all add: cpu_monitor_round_def cpu_monitor_control_def)

lemma dead_thread_run:
  "\<not> cpu_thread_alive st \<Longrightarrow>
     \<not> cpu_thread_alive (run evs st) \<and> samples (run evs st) = samples st \<and>
     lxc_log (run evs st) = lxc_log st \<and> vps_data (run evs st) = vps_data st \<and>
     flushes (run evs st) = flushes st"
proof (induction evs arbitrary: st)
  case Nil
  then show ?case by simp
next
  case (Cons ev evs)
  from dead_thread_step [OF Cons.prems, of ev] Cons.IH [of "step ev st"]
  show ?case by simp
qed

lemma run_append: "run (xs @ ys) st = run ys (run xs st)"
  by (induction xs arbitrary: st) simp_all

lemma guard_round_keeps_loop:
  "cpu_thread_alive st \<Longrightarrow> cpu_monitor_active st \<Longrightarrow>
     cpu_thread_alive (cpu_monitor_round e top_idle st) \<and>
     cpu_monitor_active (cpu_monitor_round e top_idle st) \<and>
     samples (cpu_monitor_round e top_idle st) = samples st + 1"
  by (simp add: cpu_monitor_round_def execute_lxc_def save_data_def Let_def)

subsection \<open>Resizing\<close>

lemma resize_vps_eq:
  "resize_vps e container ram_o cpu_o storage_o st =
     (let m = (ram_o \<noteq> None \<and> ram_o \<noteq> Some 0);
          c = (cpu_o \<noteq> None \<and> cpu_o \<noteq> Some 0);
          s = (storage_o \<noteq> None \<and> storage_o \<noteq> Some 0);
          mc = memory_command container (the ram_o);
          cc = cpu_command container (the cpu_o);
          qc = quota_command container (the storage_o);
          gc = grow_command container;
          log1 = (if m then [mc] else []);
          log2 = (if c then [cc] else []);
          log3 = (if s then (if lxc_ok e qc then [qc, gc] else [qc]) else [])
      in if m \<and> \<not> lxc_ok e mc then (Inl ResizeFailed, st\<lparr>lxc_log := lxc_log st @ log1\<rparr>)
         else if c \<and> \<not> lxc_ok e cc
           then (Inl ResizeFailed, st\<lparr>lxc_log := lxc_log st @ log1 @ log2\<rparr>)
         else if s \<and> \<not> lxc_ok e qc
           then (Inl ResizeFailed, st\<lparr>lxc_log := lxc_log st @ log1 @ log2 @ log3\<rparr>)
         else ((if result_send e = Delivered then Inr () else Inl ResizeFailed),
               st\<lparr>lxc_log := lxc_log st @ log1 @ log2 @ log3,
                  vps_data := (if s then map (\<lambda>(user_id, vs).
                                    (user_id, map (set_storage container (the storage_o)) vs))
                                    (vps_data st)
                               else vps_data st),
                  flushes := flushes st + 1\<rparr>))"
  by (cases ram_o; cases cpu_o; cases storage_o)
     (simp_all add: resize_vps_def execute_lxc_def set_root_disk_size_def save_data_def Let_def)

subsection \<open>Shares\<close>

lemma nos_iff:
  "no_owner_in_shares tbl \<longleftrightarrow>
     (\<forall>u vs v. (u, vs) \<in> set tbl \<longrightarrow> v \<in> set vs \<longrightarrow> u \<notin> set (shared_with v))"
  by (fastforce simp: no_owner_in_shares_def list_all_iff)

lemma set_update_subset: "set (AList.update k v al) \<subseteq> insert (k, v) (set al)"
  by (induction al) auto

lemma set_delete_subset: "set (AList.delete k al) \<subseteq> set al"
  by (auto simp: AList.delete_eq)

lemma nos_update:
  "no_owner_in_shares tbl \<Longrightarrow> \<forall>v \<in> set vs. u \<notin> set (shared_with v) \<Longrightarrow>
     no_owner_in_shares (AList.update u vs tbl)"
  using set_update_subset [of u vs tbl] by (fastforce simp: nos_iff)

lemma nos_delete: "no_owner_in_shares tbl \<Longrightarrow> no_owner_in_shares (AList.delete u tbl)"
  using set_delete_subset [of u tbl] by (fastforce simp: nos_iff)

lemma nos_lookup:
  "no_owner_in_shares tbl \<Longrightarrow> map_of tbl u = Some vs \<Longrightarrow> v \<in> set vs \<Longrightarrow>
     u \<notin> set (shared_with v)"
  by (auto simp: nos_iff dest!: map_of_SomeD)

lemma nos_vps_list:
  "no_owner_in_shares tbl \<Longrightarrow> v \<in> set (vps_list tbl u) \<Longrightarrow> u \<notin> set (shared_with v)"
  by (cases "map_of tbl u") (auto simp: vps_list_def dest: nos_lookup)

lemma nos_map:
  "no_owner_in_shares tbl \<Longrightarrow> (\<And>v. shared_with (f v) = shared_with v) \<Longrightarrow>
     no_owner_in_shares (map (\<lambda>(u, vs). (u, map f vs)) tbl)"
  by (fastforce simp: nos_iff)

lemma nos_ensure_vps_list:
  "no_owner_in_shares (vps_data st) \<Longrightarrow> no_owner_in_shares (vps_data (ensure_vps_list u st))"
  by (simp add: ensure_vps_list_def nos_update)

lemma nos_list_update:
  "\<forall>v \<in> set vs. u \<notin> set (shared_with v) \<Longrightarrow> u \<notin> set (shared_with v') \<Longrightarrow>
     \<forall>v \<in> set (vs[i := v']). u \<notin> set (shared_with v)"
  using set_update_subset_insert [of vs i v'] by auto

lemma nos_update_at:
  assumes "no_owner_in_shares tbl" and "map_of tbl u = Some vs"
      and "u \<notin> set (shared_with v')"
  shows "no_owner_in_shares (AList.update u (vs[i := v']) tbl)"
proof (rule nos_update [OF assms(1)])
  have "\<forall>v \<in> set vs. u \<notin> set (shared_with v)"
    using assms(1,2) by (auto dest: nos_lookup)
  then show "\<forall>v \<in> set (vs[i := v']). u \<notin> set (shared_with v)"
    using assms(3) by (rule nos_list_update)
qed

lemma nos_update_sub:
  assumes "no_owner_in_shares tbl" and "map_of tbl u = Some vs" and "set vs' \<subseteq> set vs"
  shows "no_owner_in_shares (AList.update u vs' tbl)"
  using assms by (intro nos_update) (auto dest: nos_lookup)

lemma nos_append_new:
  assumes "no_owner_in_shares tbl" and "no_owner_in_shares tbl'" and "shared_with info = []"
  shows "no_owner_in_shares (AList.update u (vps_list tbl u @ [info]) tbl')"
  using assms(2)
proof (rule nos_update)
  show "\<forall>v \<in> set (vps_list tbl u @ [info]). u \<notin> set (shared_with v)"
    using nos_vps_list [OF assms(1), of _ u] assms(3) by auto
qed

lemma nos_create:
  assumes "no_owner_in_shares (vps_data st)"
  shows "no_owner_in_shares (vps_data (snd (create_vps e user r c s st)))"
proof -
  let ?u = "str_nat user"
  have 0: "no_owner_in_shares (vps_data (ensure_vps_list ?u st))"
    using assms by (rule nos_ensure_vps_list)
  show ?thesis
    using assms 0
    by (simp add: create_vps_def core_create_container_eq save_data_def Let_def nos_append_new)
qed

lemma nos_buy:
  assumes "no_owner_in_shares (vps_data st)"
  shows "no_owner_in_shares (vps_data (snd (buy_with_credits e author pl prc sto st)))"
proof (cases "resolve_order pl prc")
  case (Inl err)
  with assms show ?thesis by (simp add: buy_with_credits_def)
next
  case (Inr t)
  obtain p k cost where ro: "resolve_order pl prc = Inr (p, k, cost)"
    using Inr by (cases t) auto
  then have "map_of PRICES p \<noteq> None" by (simp add: resolve_order_InrD)
  then obtain rs cs d r c where pl: "map_of PLANS p = Some (rs, cs, d)"
    "py_int (remove_GB rs) = Some r" "py_int cs = Some c"
    using PLANS_parse by blast
  let ?u = "str_nat author"
  show ?thesis
  proof (cases "credits_of (user_data st) ?u < cost")
    case True
    with assms show ?thesis by (simp add: buy_insufficient [OF ro True])
  next
    case False
    have d: "no_owner_in_shares (vps_data (debited ?u cost st))"
      using assms by (simp add: debited_def ensure_vps_list_def nos_update)
    show ?thesis
      using assms d
      by (simp add: buy_sufficient [OF ro False pl] core_create_container_eq save_data_def
          refund_def Let_def nos_append_new)
  qed
qed

lemma nos_share:
  assumes "no_owner_in_shares (vps_data st)" and "shared_user \<noteq> author"
  shows "no_owner_in_shares (vps_data (snd (share_user author shared_user n st)))"
proof (cases "map_of (vps_data st) (str_nat author)")
  case None
  with assms show ?thesis by (simp add: share_user_def)
next
  case (Some vs)
  have ne: "str_nat author \<noteq> str_nat shared_user"
    using assms(2) str_nat_inj by blast
  show ?thesis
  proof (cases "n < 1 \<or> n > int (length vs)")
    case True
    with Some assms show ?thesis by (auto simp: share_user_def)
  next
    case False
    then have "vs ! nat (n - 1) \<in> set vs" by (intro nth_mem) linarith
    then have "str_nat author \<notin> set (shared_with (vs ! nat (n - 1)))"
      using assms(1) Some by (auto dest: nos_lookup)
    with ne have "no_owner_in_shares (AList.update (str_nat author)
        (vs[nat (n - 1) := (vs ! nat (n - 1))\<lparr>shared_with :=
           shared_with (vs ! nat (n - 1)) @ [str_nat shared_user]\<rparr>]) (vps_data st))"
      by (intro nos_update_at [OF assms(1) Some]) simp
    with Some False assms(1) show ?thesis
      by (simp add: share_user_def save_data_def Let_def)
  qed
qed

lemma nos_revoke:
  assumes "no_owner_in_shares (vps_data st)"
  shows "no_owner_in_shares (vps_data (snd (revoke_share author shared_user n st)))"
proof (cases "map_of (vps_data st) (str_nat author)")
  case None
  with assms show ?thesis by (simp add: revoke_share_def)
next
  case (Some vs)
  show ?thesis
  proof (cases "n < 1 \<or> n > int (length vs)")
    case True
    with Some assms show ?thesis by (auto simp: revoke_share_def)
  next
    case False
    then have "vs ! nat (n - 1) \<in> set vs" by (intro nth_mem) linarith
    then have "str_nat author \<notin> set (shared_with (vs ! nat (n - 1)))"
      using assms(1) Some by (auto dest: nos_lookup)
    then have "str_nat author \<notin>
        set (remove1 (str_nat shared_user) (shared_with (vs ! nat (n - 1))))"
      by (auto dest: notin_set_remove1)
    then have "no_owner_in_shares (AList.update (str_nat author)
        (vs[nat (n - 1) := (vs ! nat (n - 1))\<lparr>shared_with :=
           remove1 (str_nat shared_user) (shared_with (vs ! nat (n - 1)))\<rparr>]) (vps_data st))"
      by (intro nos_update_at [OF assms(1) Some]) simp
    with Some False assms(1) show ?thesis
      by (simp add: revoke_share_def save_data_def Let_def)
  qed
qed

lemma nos_delete_vps:
  assumes "no_owner_in_shares (vps_data st)"
  shows "no_owner_in_shares (vps_data (snd (delete_vps e user n st)))"
proof (cases "map_of (vps_data st) (str_nat user)")
  case None
  with assms show ?thesis by (simp add: delete_vps_def)
next
  case (Some vs)
  have "set (take i vs @ drop (Suc i) vs) \<subseteq> set vs" for i
    by (auto dest: in_set_takeD in_set_dropD)
  then have "no_owner_in_shares
      (AList.update (str_nat user) (take i vs @ drop (Suc i) vs) (vps_data st))" for i
    by (rule nos_update_sub [OF assms Some])
  with Some assms show ?thesis
    by (simp add: delete_vps_def execute_lxc_def save_data_def Let_def nos_delete)
qed

lemma shared_with_set_storage [simp]: "shared_with (set_storage c s v) = shared_with v"
  by (simp add: set_storage_def)

lemma shared_with_stop_running [simp]: "shared_with (stop_running v) = shared_with v"
  by (simp add: stop_running_def)

lemma shared_with_set_status [simp]: "shared_with (set_status s v) = shared_with v"
  by (simp add: set_status_def)

lemma nos_resize:
  assumes "no_owner_in_shares (vps_data st)"
  shows "no_owner_in_shares (vps_data (snd (resize_vps e container ram_o cpu_o storage_o st)))"
  using assms by (simp add: resize_vps_eq Let_def nos_map)

lemma nos_admin:
  assumes "no_owner_in_shares (vps_data st)"
  shows "no_owner_in_shares (vps_data (snd (admin_credits user amount st)))"
    and "no_owner_in_shares (vps_data (snd (admin_remove_credits user a st)))"
  using assms
  by (simp_all add: admin_credits_def admin_remove_credits_def save_data_def Let_def
      split: option.splits)

lemma nos_start:
  assumes "no_owner_in_shares (vps_data st)"
  shows "no_owner_in_shares (vps_data (snd (start_vps e owner_id index st)))"
proof (cases "map_of (vps_data st) owner_id")
  case None
  with assms show ?thesis by (simp add: start_vps_def)
next
  case (Some vs)
  show ?thesis
  proof (cases "length vs \<le> index")
    case True
    with Some assms show ?thesis by (simp add: start_vps_def)
  next
    case False
    then have "vs ! index \<in> set vs" by simp
    then have "owner_id \<notin> set (shared_with (vs ! index))"
      using assms Some by (auto dest: nos_lookup)
    then have "no_owner_in_shares
        (AList.update owner_id (vs[index := set_status s (vs ! index)]) (vps_data st))" for s
      by (intro nos_update_at [OF assms Some]) simp
    with Some False assms show ?thesis
      by (simp add: start_vps_def execute_lxc_def save_data_def Let_def)
  qed
qed

lemma nos_stop:
  assumes "no_owner_in_shares (vps_data st)"
  shows "no_owner_in_shares (vps_data (snd (stop_vps e owner_id index st)))"
proof (cases "map_of (vps_data st) owner_id")
  case None
  with assms show ?thesis by (simp add: stop_vps_def)
next
  case (Some vs)
  show ?thesis
  proof (cases "length vs \<le> index")
    case True
    with Some assms show ?thesis by (simp add: stop_vps_def)
  next
    case False
    then have "vs ! index \<in> set vs" by simp
    then have "owner_id \<notin> set (shared_with (vs ! index))"
      using assms Some by (auto dest: nos_lookup)
    then have "no_owner_in_shares
        (AList.update owner_id (vs[index := set_status s (vs ! index)]) (vps_data st))" for s
      by (intro nos_update_at [OF assms Some]) simp
    with Some False assms show ?thesis
      by (simp add: stop_vps_def execute_lxc_def save_data_def Let_def)
  qed
qed

lemma nos_reinstall:
  assumes "no_owner_in_shares (vps_data st)"
  shows "no_owner_in_shares (vps_data (snd (reinstall_vps e owner_id index st)))"
proof (cases "map_of (vps_data st) owner_id")
  case None
  with assms show ?thesis by (simp add: reinstall_vps_def)
next
  case (Some vs)
  show ?thesis
  proof (cases "length vs \<le> index")
    case True
    with Some assms show ?thesis by (simp add: reinstall_vps_def)
  next
    case False
    then have "vs ! index \<in> set vs" by simp
    then have "owner_id \<notin> set (shared_with (vs ! index))"
      using assms Some by (auto dest: nos_lookup)
    then have "no_owner_in_shares
        (AList.update owner_id
           (vs[index := (vs ! index)\<lparr>status := s, created_at := t\<rparr>]) (vps_data st))" for s t
      by (intro nos_update_at [OF assms Some]) simp
    with Some False assms show ?thesis
      by (simp add: reinstall_vps_def execute_lxc_def set_root_disk_size_def save_data_def
          Let_def split: option.splits)
  qed
qed

lemma mark_first_shares:
  "\<forall>v \<in> set vs. u \<notin> set (shared_with v) \<Longrightarrow>
     \<forall>v \<in> set (fst (mark_first c vs)). u \<notin> set (shared_with v)"
  by (induction vs) (auto split: prod.splits)

lemma nos_restart_mark:
  "no_owner_in_shares tbl \<Longrightarrow> no_owner_in_shares (fst (restart_mark c tbl))"
proof (induction tbl)
  case Nil
  then show ?case by simp
next
  case (Cons a tbl)
  obtain u vs where a: "a = (u, vs)" by (cases a)
  from Cons.prems have 1: "\<forall>v \<in> set vs. u \<notin> set (shared_with v)" and 2: "no_owner_in_shares tbl"
    by (simp_all add: a no_owner_in_shares_def list_all_iff)
  from mark_first_shares [OF 1, of c] Cons.IH [OF 2]
  show ?case
    by (simp add: a no_owner_in_shares_def list_all_iff split: prod.splits)
qed

lemma nos_restart:
  assumes "no_owner_in_shares (vps_data st)"
  shows "no_owner_in_shares (vps_data (snd (restart_vps e container st)))"
  using assms nos_restart_mark [of "vps_data st" container]
  by (auto simp: restart_vps_def execute_lxc_def Let_def split: prod.splits)

lemma nos_mark_all_stopped:
  "no_owner_in_shares tbl \<Longrightarrow> no_owner_in_shares (mark_all_stopped tbl)"
  unfolding mark_all_stopped_def by (rule nos_map) simp_all

lemma nos_stop_all:
  assumes "no_owner_in_shares (vps_data st)"
  shows "no_owner_in_shares (vps_data (snd (stop_all_vps e st)))"
    and "no_owner_in_shares (vps_data (cpu_monitor_round e top_idle st))"
    and "no_owner_in_shares (vps_data (cpu_monitor_control action st))"
  using assms
  by (simp_all add: stop_all_vps_def cpu_monitor_round_def cpu_monitor_control_def execute_lxc_def
      save_data_def Let_def nos_mark_all_stopped)

subsection \<open>Container names\<close>

lemma vps_name_inj_gen:
  assumes "vps_name u m = vps_name u' n" and "CHR ''-'' \<notin> set u" and "CHR ''-'' \<notin> set u'"
  shows "u = u' \<and> m = n"
proof -
  from assms(1) have "u @ CHR ''-'' # str_nat m = u' @ CHR ''-'' # str_nat n"
    by (simp add: vps_name_def)
  then have "u = u' \<and> str_nat m = str_nat n"
    using assms(2,3) by (rule split_at_sep)
  then show ?thesis by (auto dest: str_nat_inj)
qed

lemma distinct_numbered: "CHR ''-'' \<notin> set u \<Longrightarrow> distinct (map (vps_name u) [a..<b])"
  by (auto simp: distinct_map inj_on_def dest: vps_name_inj_gen)

lemma wn_Cons:
  "well_numbered ((u, vs) # tbl) \<longleftrightarrow>
     u \<notin> fst ` set tbl \<and> CHR ''-'' \<notin> set u \<and>
     map container_name vs = map (vps_name u) [1..<length vs + 1] \<and> well_numbered tbl"
  by (auto simp: well_numbered_def)

lemma all_names_Cons: "all_names ((u, vs) # tbl) = map container_name vs @ all_names tbl"
  by (simp add: all_names_def)

lemma all_names_owner:
  "well_numbered tbl \<Longrightarrow> x \<in> set (all_names tbl) \<Longrightarrow>
     \<exists>u n. u \<in> fst ` set tbl \<and> CHR ''-'' \<notin> set u \<and> x = vps_name u n"
proof (induction tbl)
  case Nil
  then show ?case by (simp add: all_names_def)
next
  case (Cons a tbl)
  obtain u vs where a: "a = (u, vs)" by (cases a)
  from Cons.prems(1) have w: "CHR ''-'' \<notin> set u"
    "map container_name vs = map (vps_name u) [1..<length vs + 1]" "well_numbered tbl"
    by (simp_all add: a wn_Cons)
  from Cons.prems(2) consider "x \<in> set (map container_name vs)" | "x \<in> set (all_names tbl)"
    by (auto simp: a all_names_Cons)
  then show ?case
  proof cases
    case 1
    then obtain n where "x = vps_name u n" unfolding w(2) by auto
    with w(1) show ?thesis by (auto simp: a)
  next
    case 2
    from Cons.IH [OF w(3) 2] show ?thesis by auto
  qed
qed

lemma well_numbered_distinct: "well_numbered tbl \<Longrightarrow> distinct (all_names tbl)"
proof (induction tbl)
  case Nil
  then show ?case by (simp add: all_names_def)
next
  case (Cons a tbl)
  obtain u vs where a: "a = (u, vs)" by (cases a)
  from Cons.prems have w: "u \<notin> fst ` set tbl" "CHR ''-'' \<notin> set u"
    "map container_name vs = map (vps_name u) [1..<length vs + 1]" "well_numbered tbl"
    by (simp_all add: a wn_Cons)
  have d1: "distinct (map container_name vs)"
    unfolding w(3) using w(2) by (rule distinct_numbered)
  have d2: "distinct (all_names tbl)" using w(4) by (rule Cons.IH)
  have d3: "set (map container_name vs) \<inter> set (all_names tbl) = {}"
  proof (rule ccontr)
    assume "set (map container_name vs) \<inter> set (all_names tbl) \<noteq> {}"
    then obtain x where x: "x \<in> set (map container_name vs)" "x \<in> set (all_names tbl)"
      by blast
    from x(1) obtain m where m: "x = vps_name u m" unfolding w(3) by auto
    from all_names_owner [OF w(4) x(2)] obtain u' n where
      u': "u' \<in> fst ` set tbl" "CHR ''-'' \<notin> set u'" "x = vps_name u' n" by blast
    from m u'(3) have "vps_name u m = vps_name u' n" by simp
    then have "u = u'" using w(2) u'(2) by (auto dest: vps_name_inj_gen)
    with u'(1) w(1) show False by simp
  qed
  from d1 d2 d3 show ?case by (simp add: a all_names_Cons)
qed

lemma wn_iff:
  "well_numbered tbl \<longleftrightarrow>
     distinct (map fst tbl) \<and>
     (\<forall>u vs. (u, vs) \<in> set tbl \<longrightarrow>
        CHR ''-'' \<notin> set u \<and> map container_name vs = map (vps_name u) [1..<length vs + 1])"
  by (fastforce simp: well_numbered_def list_all_iff)

lemma wn_update:
  assumes "well_numbered tbl" and "CHR ''-'' \<notin> set u"
      and "map container_name vs = map (vps_name u) [1..<length vs + 1]"
  shows "well_numbered (AList.update u vs tbl)"
  using assms set_update_subset [of u vs tbl]
  by (fastforce simp: wn_iff distinct_update)

lemma wn_vps_list:
  assumes "well_numbered tbl"
  shows "map container_name (vps_list tbl u) = map (vps_name u) [1..<length (vps_list tbl u) + 1]"
proof (cases "map_of tbl u")
  case None
  then show ?thesis by (simp add: vps_list_def)
next
  case (Some vs)
  then have "(u, vs) \<in> set tbl" by (rule map_of_SomeD)
  with assms Some show ?thesis by (auto simp: vps_list_def wn_iff)
qed

lemma wn_append_new:
  assumes "well_numbered tbl" and "well_numbered tbl'" and "CHR ''-'' \<notin> set u"
      and "container_name info = vps_name u (Suc (length (vps_list tbl u)))"
  shows "well_numbered (AList.update u (vps_list tbl u @ [info]) tbl')"
  using assms(2,3)
proof (rule wn_update)
  show "map container_name (vps_list tbl u @ [info]) =
      map (vps_name u) [1..<length (vps_list tbl u @ [info]) + 1]"
    using wn_vps_list [OF assms(1), of u] assms(4) by simp
qed

lemma wn_ensure_vps_list:
  "well_numbered (vps_data st) \<Longrightarrow> CHR ''-'' \<notin> set u \<Longrightarrow>
     well_numbered (vps_data (ensure_vps_list u st))"
  by (simp add: ensure_vps_list_def wn_update)

lemma wn_create:
  assumes "well_numbered (vps_data st)"
  shows "well_numbered (vps_data (snd (create_vps e user r c s st)))"
proof -
  let ?u = "str_nat user"
  have 0: "well_numbered (vps_data (ensure_vps_list ?u st))"
    using assms dash_notin_str_nat by (rule wn_ensure_vps_list)
  show ?thesis
    using assms 0 dash_notin_str_nat [of user]
    by (simp add: create_vps_def core_create_container_eq save_data_def Let_def wn_append_new)
qed

lemma wn_buy:
  assumes "well_numbered (vps_data st)"
  shows "well_numbered (vps_data (snd (buy_with_credits e author pl prc sto st)))"
proof (cases "resolve_order pl prc")
  case (Inl err)
  with assms show ?thesis by (simp add: buy_with_credits_def)
next
  case (Inr t)
  obtain p k cost where ro: "resolve_order pl prc = Inr (p, k, cost)"
    using Inr by (cases t) auto
  then have "map_of PRICES p \<noteq> None" by (simp add: resolve_order_InrD)
  then obtain rs cs d r c where pl: "map_of PLANS p = Some (rs, cs, d)"
    "py_int (remove_GB rs) = Some r" "py_int cs = Some c"
    using PLANS_parse by blast
  let ?u = "str_nat author"
  show ?thesis
  proof (cases "credits_of (user_data st) ?u < cost")
    case True
    with assms show ?thesis by (simp add: buy_insufficient [OF ro True])
  next
    case False
    have d: "well_numbered (vps_data (debited ?u cost st))"
      using assms dash_notin_str_nat [of author]
      by (simp add: debited_def ensure_vps_list_def wn_update)
    show ?thesis
      using assms d dash_notin_str_nat [of author]
      by (simp add: buy_sufficient [OF ro False pl] core_create_container_eq save_data_def
          refund_def Let_def wn_append_new)
  qed
qed

lemma create_InrD:
  assumes "fst (create_vps e user r c s st) = Inr info"
  shows "container_name info =
           vps_name (str_nat user) (length (vps_list (vps_data st) (str_nat user)) + 1) \<and>
         vps_list (vps_data (snd (create_vps e user r c s st))) (str_nat user) =
           vps_list (vps_data st) (str_nat user) @ [info]"
  using assms
  by (auto simp: create_vps_def core_create_container_eq save_data_def Let_def
      split: if_splits)

lemma buy_InrD:
  assumes "fst (buy_with_credits e author pl prc sto st) = Inr info"
  shows "container_name info =
           vps_name (str_nat author) (length (vps_list (vps_data st) (str_nat author)) + 1) \<and>
         vps_list (vps_data (snd (buy_with_credits e author pl prc sto st))) (str_nat author) =
           vps_list (vps_data st) (str_nat author) @ [info]"
  using buy_cases [where e = e and sto = sto and st = st and author = author
      and pl = pl and prc = prc] assms
  by (auto simp: Let_def split: if_splits)

lemma delete_InrD:
  assumes "fst (delete_vps e user n st) = Inr ()"
  shows "1 \<le> n \<and> n \<le> int (length (vps_list (vps_data st) (str_nat user))) \<and>
         vps_list (vps_data (snd (delete_vps e user n st))) (str_nat user) =
           take (nat (n - 1)) (vps_list (vps_data st) (str_nat user)) @
           drop (nat n) (vps_list (vps_data st) (str_nat user)) \<and>
         (\<forall>u. u \<noteq> str_nat user \<longrightarrow>
            vps_list (vps_data (snd (delete_vps e user n st))) u = vps_list (vps_data st) u)"
proof (cases "map_of (vps_data st) (str_nat user)")
  case None
  with assms show ?thesis by (simp add: delete_vps_def)
next
  case (Some vs)
  then have vl: "vps_list (vps_data st) (str_nat user) = vs" by (simp add: vps_list_def)
  have s: "Suc (nat (n - 1)) = nat n" if "1 \<le> n" using that by simp
  show ?thesis
    using assms Some s
    by (auto simp: delete_vps_def execute_lxc_def save_data_def Let_def vl
        split: if_splits)
qed

section \<open>The claims\<close>

text \<open>
  C8. A purchase with a valid plan and processor (\<open>resolve_order\<close> gives the price
  \<open>cost\<close>) by a buyer whose balance is below the price ends in "Insufficient Credits".
  Nothing has happened by then: every balance is what it was, no record was created, no
  runtime command was issued and nothing was flushed. (The buyer's account entry may have
  been created with 0 credits, which is the balance a user without an entry has.)
\<close>

theorem insufficient_credits_rejected:
  assumes "resolve_order pl prc = Inr (p, k, cost)"
      and "credits_of (user_data st) (str_nat author) < cost"
  shows "fst (buy_with_credits e author pl prc sto st) = Inl InsufficientCredits \<and>
         (\<forall>u. credits_of (user_data (snd (buy_with_credits e author pl prc sto st))) u =
                credits_of (user_data st) u) \<and>
         vps_data (snd (buy_with_credits e author pl prc sto st)) = vps_data st \<and>
         lxc_log (snd (buy_with_credits e author pl prc sto st)) = lxc_log st \<and>
         flushes (snd (buy_with_credits e author pl prc sto st)) = flushes st"
  by (simp add: buy_insufficient [OF assms])

text \<open>The scenario of the claim: user 1 has no credits and asks for Starter on Intel,
  which costs 42.\<close>

theorem insufficient_credits_rejected_witness:
  "resolve_order ''Starter'' ''Intel'' = Inr (''Starter'', ''Intel'', 42) \<and>
   credits_of (user_data initial) (str_nat 1) = 0 \<and>
   fst (buy_with_credits env_ok 1 ''Starter'' ''Intel'' None initial) = Inl InsufficientCredits \<and>
   credits_of (user_data (snd (buy_with_credits env_ok 1 ''Starter'' ''Intel'' None initial)))
     (str_nat 1) = 0 \<and>
   vps_data (snd (buy_with_credits env_ok 1 ''Starter'' ''Intel'' None initial)) = []"
proof -
  have h1: "resolve_order ''Starter'' ''Intel'' = Inr (''Starter'', ''Intel'', 42)"
    by code_simp
  have h0: "credits_of (user_data initial) (str_nat 1) = 0"
    by (simp add: initial_def credits_of_def)
  then have h2: "credits_of (user_data initial) (str_nat 1) < 42" by simp
  have h3: "vps_data initial = []" by (simp add: initial_def)
  show ?thesis
    using insufficient_credits_rejected [OF h1 h2, of env_ok None] h0 h1 h3 by simp
qed

text \<open>
  C10. A storage override that is absent, zero or negative changes nothing: the purchase
  runs exactly as it does without an override, it never ends in "Invalid Specs", and a
  record it creates carries the plan's default storage.
\<close>

theorem nonpositive_storage_uses_default:
  assumes "sto = None \<or> (\<exists>s. sto = Some s \<and> s \<le> 0)"
  shows "buy_with_credits e author pl prc sto st = buy_with_credits e author pl prc None st \<and>
         fst (buy_with_credits e author pl prc sto st) \<noteq> Inl InvalidSpecs \<and>
         (\<forall>info. fst (buy_with_credits e author pl prc sto st) = Inr info \<longrightarrow>
            (\<exists>rs cs d. map_of PLANS (capitalize pl) = Some (rs, cs, d) \<and>
               storage info = str_int d @ ''GB''))"
proof -
  have ps: "pick_storage sto = pick_storage None"
    using assms by (auto simp: pick_storage_def fun_eq_iff)
  have 1: "buy_with_credits e author pl prc sto st = buy_with_credits e author pl prc None st"
    unfolding buy_with_credits_def by (simp only: ps)
  have 2: "fst (buy_with_credits e author pl prc sto st) \<noteq> Inl InvalidSpecs"
    using buy_cases [where e = e and sto = sto and st = st and author = author
        and pl = pl and prc = prc] resolve_order_Inl [of pl prc]
    by (auto simp: Let_def split: if_splits)
  have 3: "\<exists>rs cs d. map_of PLANS (capitalize pl) = Some (rs, cs, d) \<and>
               storage info = str_int d @ ''GB''"
    if "fst (buy_with_credits e author pl prc sto st) = Inr info" for info
    using buy_cases [where e = e and sto = sto and st = st and author = author
        and pl = pl and prc = prc] that pick_storage_nonpos [OF assms]
    by (auto simp: Let_def split: if_splits dest!: resolve_order_InrD)
  from 1 2 3 show ?thesis by blast
qed

text \<open>User 1, holding 100 credits, buys Starter on Intel with the override -5: the
  record has the 20 GB of the plan.\<close>

theorem nonpositive_storage_uses_default_witness:
  "buy_with_credits env_ok 1 ''Starter'' ''Intel'' (Some (- 5)) funded =
     buy_with_credits env_ok 1 ''Starter'' ''Intel'' None funded \<and>
   fst (buy_with_credits env_ok 1 ''Starter'' ''Intel'' (Some (- 5)) funded) \<noteq> Inl InvalidSpecs \<and>
   map storage (vps_list (vps_data
       (snd (buy_with_credits env_ok 1 ''Starter'' ''Intel'' (Some (- 5)) funded))) ''1'') =
     [''20GB'']"
proof -
  have h: "Some (- 5) = (None :: int option) \<or> (\<exists>s::int. Some (- 5) = Some s \<and> s \<le> 0)"
    by simp
  have s: "map storage (vps_list (vps_data
       (snd (buy_with_credits env_ok 1 ''Starter'' ''Intel'' None funded))) ''1'') = [''20GB'']"
    by code_simp
  note t = nonpositive_storage_uses_default
    [OF h, of env_ok 1 "''Starter''" "''Intel''" funded]
  from t have a: "buy_with_credits env_ok 1 ''Starter'' ''Intel'' (Some (- 5)) funded =
      buy_with_credits env_ok 1 ''Starter'' ''Intel'' None funded"
    by blast
  from t have b:
    "fst (buy_with_credits env_ok 1 ''Starter'' ''Intel'' (Some (- 5)) funded) \<noteq> Inl InvalidSpecs"
    by blast
  from a s show ?thesis using b by simp
qed

text \<open>
  C9. The prices are the fixed table below, a function of plan and processor alone. A
  buyer who holds 100 credits and buys Starter on Intel, with the provisioning and the
  notifications succeeding, pays 42 and is left with 58; exactly one record is appended
  to the buyer's list, with 4 GB of RAM, 1 CPU core, 20 GB of storage and status running.
\<close>

theorem starter_intel_purchase:
  fixes e :: env and st :: store and author :: nat
  defines "uid \<equiv> str_nat author"
  defines "name \<equiv> vps_name uid (length (vps_list (vps_data st) uid) + 1)"
  defines "res \<equiv> buy_with_credits e author ''Starter'' ''Intel'' None st"
  assumes "credits_of (user_data st) uid = 100"
      and "progress_send e = Delivered" and "notify e"
      and "lxc_ok e (launch_command name 4096 ''1'' ''btrpool'')"
      and "lxc_ok e (quota_command name 20)"
  shows "price ''Starter'' ''Intel'' = Some 42 \<and> price ''Starter'' ''AMD'' = Some 83 \<and>
         price ''Basic'' ''Intel'' = Some 96 \<and> price ''Basic'' ''AMD'' = Some 164 \<and>
         price ''Standard'' ''Intel'' = Some 192 \<and> price ''Standard'' ''AMD'' = Some 320 \<and>
         price ''Pro'' ''Intel'' = Some 220 \<and> price ''Pro'' ''AMD'' = Some 340 \<and>
         resolve_order ''Starter'' ''Intel'' = Inr (''Starter'', ''Intel'', 42) \<and>
         (\<exists>info. fst res = Inr info \<and>
            container_name info = name \<and> plan info = Some ''Starter'' \<and>
            processor info = Some ''Intel'' \<and> ram info = ''4GB'' \<and> cpu info = ''1'' \<and>
            storage info = ''20GB'' \<and> status info = ''running'' \<and> shared_with info = [] \<and>
            vps_list (vps_data (snd res)) uid = vps_list (vps_data st) uid @ [info]) \<and>
         credits_of (user_data (snd res)) uid = 58 \<and>
         flushes (snd res) = flushes st + 1"
proof -
  have prices: "price ''Starter'' ''Intel'' = Some 42" "price ''Starter'' ''AMD'' = Some 83"
    "price ''Basic'' ''Intel'' = Some 96" "price ''Basic'' ''AMD'' = Some 164"
    "price ''Standard'' ''Intel'' = Some 192" "price ''Standard'' ''AMD'' = Some 320"
    "price ''Pro'' ''Intel'' = Some 220" "price ''Pro'' ''AMD'' = Some 340"
    by (simp_all add: price_def PRICES_def)
  have ro: "resolve_order ''Starter'' ''Intel'' = Inr (''Starter'', ''Intel'', 42)"
    by code_simp
  have cr: "\<not> credits_of (user_data st) (str_nat author) < 42"
    using assms(4) by (simp add: uid_def)
  have pl: "map_of PLANS ''Starter'' = Some (''4GB'', ''1'', 20)"
    "py_int (remove_GB ''4GB'') = Some 4" "py_int ''1'' = Some 1"
    by code_simp+
  have r: "str_int 1 = ''1''" "str_int 20 = ''20''" by code_simp+
  have ps: "pick_storage None 20 = 20" by (simp add: pick_storage_def)
  have prov: "lxc_ok e (launch_command
        (vps_name (str_nat author) (length (vps_list (vps_data st) (str_nat author)) + 1))
        (4 * 1024) (str_int 1) ''btrpool'') \<and>
      lxc_ok e (quota_command
        (vps_name (str_nat author) (length (vps_list (vps_data st) (str_nat author)) + 1))
        (pick_storage None 20))"
    using assms(7,8) by (simp add: r ps name_def uid_def)
  have out: "fst res = Inr \<lparr>plan = Some ''Starter'', container_name = name, ram = ''4GB'',
        cpu = ''1'', storage = str_int (pick_storage None 20) @ ''GB'', status = ''running'',
        created_at = now e, processor = Some ''Intel'', shared_with = []\<rparr> \<and>
      credits_of (user_data (snd res)) uid = credits_of (user_data st) uid - 42 \<and>
      vps_list (vps_data (snd res)) uid = vps_list (vps_data st) uid @
        [\<lparr>plan = Some ''Starter'', container_name = name, ram = ''4GB'',
        cpu = ''1'', storage = str_int (pick_storage None 20) @ ''GB'', status = ''running'',
        created_at = now e, processor = Some ''Intel'', shared_with = []\<rparr>] \<and>
      flushes (snd res) = flushes st + 1"
    unfolding res_def name_def uid_def
    by (rule buy_outcomes(3) [OF ro cr pl assms(5) prov assms(6)])
  from out have
    "\<exists>info. fst res = Inr info \<and>
            container_name info = name \<and> plan info = Some ''Starter'' \<and>
            processor info = Some ''Intel'' \<and> ram info = ''4GB'' \<and> cpu info = ''1'' \<and>
            storage info = ''20GB'' \<and> status info = ''running'' \<and> shared_with info = [] \<and>
            vps_list (vps_data (snd res)) uid = vps_list (vps_data st) uid @ [info]"
    by (simp add: r ps)
  moreover from out assms(4) have "credits_of (user_data (snd res)) uid = 58" by simp
  moreover from out have "flushes (snd res) = flushes st + 1" by simp
  ultimately show ?thesis using prices ro by blast
qed

text \<open>The scenario of the claim: an admin grants 100 credits to user 1, who then buys
  Starter on Intel.\<close>

theorem starter_intel_purchase_witness:
  "credits_of (user_data funded) (str_nat 1) = 100 \<and>
   credits_of (user_data (snd (buy_with_credits env_ok 1 ''Starter'' ''Intel'' None funded)))
     (str_nat 1) = 58 \<and>
   (\<exists>info. fst (buy_with_credits env_ok 1 ''Starter'' ''Intel'' None funded) = Inr info \<and>
      container_name info = vps_name (str_nat 1) (length (vps_list (vps_data funded) (str_nat 1)) + 1) \<and>
      plan info = Some ''Starter'' \<and>
      processor info = Some ''Intel'' \<and> ram info = ''4GB'' \<and> cpu info = ''1'' \<and>
      storage info = ''20GB'' \<and> status info = ''running'' \<and> shared_with info = [] \<and>
      vps_list (vps_data (snd (buy_with_credits env_ok 1 ''Starter'' ''Intel'' None funded)))
        (str_nat 1) = vps_list (vps_data funded) (str_nat 1) @ [info])"
proof -
  have h1: "credits_of (user_data funded) (str_nat 1) = 100" by code_simp
  have h2: "progress_send env_ok = Delivered" "notify env_ok"
    by (simp_all add: env_ok_def notify_def)
  have h3: "lxc_ok env_ok c" for c by (simp add: env_ok_def)
  show ?thesis
    using starter_intel_purchase [OF h1 h2 h3 h3] h1 by blast
qed

text \<open>
  C1. The claim fails on the code in both directions. The \<open>try\<close> block of
  \<open>buy_with_credits\<close> also holds the notifications that follow the append of the record,
  so an exception raised by one of them (here: the send of the success embed) reaches the
  refund: the purchase ends in "Purchase Failed" with the balance back at 100 and the
  record stored. And the progress embed is sent after the debit but before the \<open>try\<close>
  block, so an exception raised there leaves the command with 42 credits taken, no record
  and no refund.
\<close>

theorem purchase_not_all_or_nothing:
  "fst (buy_with_credits env_result_lost 1 ''Starter'' ''Intel'' None funded) = Inl PurchaseFailed \<and>
   credits_of (user_data funded) ''1'' = 100 \<and>
   credits_of (user_data
     (snd (buy_with_credits env_result_lost 1 ''Starter'' ''Intel'' None funded))) ''1'' = 100 \<and>
   map container_name (vps_list (vps_data
     (snd (buy_with_credits env_result_lost 1 ''Starter'' ''Intel'' None funded))) ''1'') =
     [''vps-1-1''] \<and>
   fst (buy_with_credits env_progress_lost 1 ''Starter'' ''Intel'' None funded) = Inl Uncaught \<and>
   credits_of (user_data
     (snd (buy_with_credits env_progress_lost 1 ''Starter'' ''Intel'' None funded))) ''1'' = 58 \<and>
   vps_list (vps_data
     (snd (buy_with_credits env_progress_lost 1 ''Starter'' ''Intel'' None funded))) ''1'' = []"
  by code_simp




text \<open>
  C7. The claim fails on the code when the stop-all command itself fails:
  \<open>subprocess.run\<close> is called with \<open>check=True\<close> inside a \<open>try\<close> block, so a
  non-zero exit code skips the marking. Here the usage is 95% and the runtime refuses the
  command; the running record of owner 7 stays running.
\<close>

theorem overload_without_stop_counterexample:
  "cpu_thread_alive fleet \<and> cpu_monitor_active fleet \<and>
   get_cpu_usage (Some 5) > CPU_THRESHOLD \<and>
   map status (vps_list (vps_data (cpu_monitor_round env_stop_refused (Some 5) fleet)) ''7'') =
     [''running'', ''stopped'']"
proof -
  have "get_cpu_usage (Some 5) > CPU_THRESHOLD"
    by (simp add: get_cpu_usage_def CPU_THRESHOLD_def)
  moreover have "cpu_thread_alive fleet \<and> cpu_monitor_active fleet"
    by (simp add: fleet_def initial_def)
  moreover have "\<not> lxc_ok env_stop_refused stop_all_command"
    by (simp add: env_stop_refused_def)
  ultimately have "vps_data (cpu_monitor_round env_stop_refused (Some 5) fleet) = vps_data fleet"
    by (simp add: cpu_monitor_round_def execute_lxc_def Let_def)
  moreover have "map status (vps_list (vps_data fleet) ''7'') = [''running'', ''stopped'']"
    by (simp add: fleet_def vps_list_def example_vps_def)
  ultimately show ?thesis
    using \<open>get_cpu_usage (Some 5) > CPU_THRESHOLD\<close>
      \<open>cpu_thread_alive fleet \<and> cpu_monitor_active fleet\<close> by simp
qed

text \<open>
  C7, amended. When the monitor thread runs a round with the flag on and the sampled
  usage exceeds the threshold, it issues the stop-all command exactly once and touches no
  account. If the command succeeds, the store is flushed once and the table of records
  keeps its owners, their order and the length of every list, and every record is the
  old one with at most its status changed: from running to stopped, any other status
  staying (\<open>stopped_version\<close>). If the command fails, no record changes and nothing is
  flushed.
\<close>

theorem overload_stops_running_records:
  fixes e :: env and st :: store and top_idle :: "real option"
  defines "st' \<equiv> cpu_monitor_round e top_idle st"
  assumes "cpu_thread_alive st" and "cpu_monitor_active st"
      and "get_cpu_usage top_idle > CPU_THRESHOLD"
  shows "lxc_log st' = lxc_log st @ [stop_all_command] \<and>
         user_data st' = user_data st \<and>
         (lxc_ok e stop_all_command \<longrightarrow>
            flushes st' = flushes st + 1 \<and>
            list_all2 (\<lambda>(u, vs) (u', vs'). u' = u \<and> list_all2 stopped_version vs vs')
              (vps_data st) (vps_data st')) \<and>
         (\<not> lxc_ok e stop_all_command \<longrightarrow>
            flushes st' = flushes st \<and> vps_data st' = vps_data st)"
  using assms(2-4) mark_all_stopped_rel [of "vps_data st"]
  by (simp add: st'_def cpu_monitor_round_def execute_lxc_def save_data_def Let_def)

text \<open>The store \<open>fleet\<close> at 95% usage, once with a runtime that obeys and once with
  one that refuses the stop-all command.\<close>

theorem overload_stops_running_records_witness:
  "lxc_log (cpu_monitor_round env_ok (Some 5) fleet) = [stop_all_command] \<and>
   flushes (cpu_monitor_round env_ok (Some 5) fleet) = 1 \<and>
   list_all2 (\<lambda>(u, vs) (u', vs'). u' = u \<and> list_all2 stopped_version vs vs')
     (vps_data fleet) (vps_data (cpu_monitor_round env_ok (Some 5) fleet)) \<and>
   flushes (cpu_monitor_round env_stop_refused (Some 5) fleet) = 0 \<and>
   vps_data (cpu_monitor_round env_stop_refused (Some 5) fleet) = vps_data fleet"
proof -
  have h: "cpu_thread_alive fleet" "cpu_monitor_active fleet"
    "get_cpu_usage (Some 5) > CPU_THRESHOLD"
    by (simp_all add: fleet_def initial_def get_cpu_usage_def CPU_THRESHOLD_def)
  have ok: "lxc_ok env_ok stop_all_command" "\<not> lxc_ok env_stop_refused stop_all_command"
    by (simp_all add: env_ok_def env_stop_refused_def)
  have z: "lxc_log fleet = []" "flushes fleet = 0" by (simp_all add: fleet_def initial_def)
  show ?thesis
    using overload_stops_running_records [OF h, of env_ok]
      overload_stops_running_records [OF h, of env_stop_refused] ok z
    by simp
qed

text \<open>
  C5. The first half of the claim holds (\<open>guard_round_keeps_loop\<close>: a round leaves the
  flag and the thread as they are, whatever fails in it). The second half fails on the
  code. The flag is the condition of the \<open>while\<close> loop of \<open>cpu_monitor\<close>: a thread that
  arrives at the head of the loop while the flag is off leaves the function and ends, and
  \<open>.cpu-monitor enable\<close> only sets the flag, it starts no thread. After disable, one
  arrival of the thread, and enable, the flag reads Active, the thread is gone, and
  whatever happens afterwards (\<open>evs\<close>) no sample is taken and no command is issued.
\<close>

theorem guard_does_not_resume:
  "cpu_monitor_active (run [Control ''disable'', Wake e top_idle, Control ''enable''] initial) \<and>
   \<not> cpu_thread_alive (run [Control ''disable'', Wake e top_idle, Control ''enable''] initial) \<and>
   samples (run ([Control ''disable'', Wake e top_idle, Control ''enable''] @ evs) initial) = 0 \<and>
   lxc_log (run ([Control ''disable'', Wake e top_idle, Control ''enable''] @ evs) initial) = []"
proof -
  have l: "lower ''disable'' = ''disable''" "lower ''enable'' = ''enable''" by code_simp+
  have a: "run [Control ''disable'', Wake e top_idle, Control ''enable''] initial =
      initial\<lparr>cpu_monitor_active := True, cpu_thread_alive := False\<rparr>"
    by (simp add: cpu_monitor_control_def cpu_monitor_round_def l initial_def)
  then have d: "\<not> cpu_thread_alive
      (run [Control ''disable'', Wake e top_idle, Control ''enable''] initial)"
    by simp
  show ?thesis
    using dead_thread_run [OF d, of evs] a
    by (simp add: run_append initial_def)
qed




text \<open>
  C6. The claim fails on the code: \<open>share_user\<close> never compares the grantee with the
  caller, so an owner who names themselves is appended to \<open>shared_with\<close> of their own
  record.
\<close>

theorem self_share_counterexample:
  "no_self_share fleet \<and>
   fst (share_user 7 7 1 fleet) = Inr () \<and>
   \<not> no_self_share (snd (share_user 7 7 1 fleet)) \<and>
   map shared_with (vps_list (vps_data (snd (share_user 7 7 1 fleet))) ''7'') = [[''7''], []]"
  by code_simp

text \<open>
  C6, amended. Every command that writes to the store keeps the invariant that no record
  is shared with its owner, except a share whose grantee is the caller: creating,
  purchasing, sharing with another user, revoking, deleting, resizing, the credit
  commands, start, stop, reinstall, restart, stop-all, a round of the CPU monitor and the
  monitor switch.
\<close>

theorem shares_exclude_owner:
  assumes "no_self_share st" and "\<not> is_self_share c"
  shows "no_self_share (exec c st)"
proof -
  from assms(1) have n: "no_owner_in_shares (vps_data st)" by (simp add: no_self_share_def)
  show ?thesis
    unfolding no_self_share_def
    using assms(2)
    by (cases c)
       (simp_all add: nos_create nos_buy nos_share nos_revoke nos_delete_vps nos_resize
          nos_admin nos_start nos_stop nos_reinstall nos_restart nos_stop_all n)
qed

text \<open>Owner 7 shares the first record with user 8.\<close>

theorem shares_exclude_owner_witness:
  "no_self_share fleet \<and> \<not> is_self_share (Share 7 8 1) \<and>
   no_self_share (exec (Share 7 8 1) fleet) \<and>
   map shared_with (vps_list (vps_data (exec (Share 7 8 1) fleet)) ''7'') = [[''8''], []]"
proof -
  have h1: "no_self_share fleet" by code_simp
  have h2: "\<not> is_self_share (Share 7 8 1)" by simp
  have h3: "map shared_with (vps_list (vps_data (exec (Share 7 8 1) fleet)) ''7'') = [[''8''], []]"
    by code_simp
  from shares_exclude_owner [OF h1 h2] h1 h2 h3 show ?thesis by blast
qed

text \<open>
  C2. The claim fails on the code, which numbers a new container with the length of the
  owner's list plus one and keeps no counter. User 7 owns vps-7-1, vps-7-2 and vps-7-3.
  After the third is deleted, the next container created for user 7 is vps-7-3 again:
  the number is reused. After the second is deleted instead, the next creation also
  computes vps-7-3, the name of a record that is still stored; when the runtime accepts
  the launch, two records carry one name.
\<close>

theorem sequence_numbers_counterexample:
  "map container_name (vps_list (vps_data three_vps) ''7'') =
     [''vps-7-1'', ''vps-7-2'', ''vps-7-3''] \<and>
   fst (delete_vps env_ok 7 3 three_vps) = Inr () \<and>
   map container_name (vps_list (vps_data
       (snd (create_vps env_ok 7 4 2 20 (snd (delete_vps env_ok 7 3 three_vps))))) ''7'') =
     [''vps-7-1'', ''vps-7-2'', ''vps-7-3''] \<and>
   fst (delete_vps env_ok 7 2 three_vps) = Inr () \<and>
   map container_name (vps_list (vps_data
       (snd (create_vps env_ok 7 4 2 20 (snd (delete_vps env_ok 7 2 three_vps))))) ''7'') =
     [''vps-7-1'', ''vps-7-3'', ''vps-7-3''] \<and>
   \<not> distinct (all_names (vps_data
       (snd (create_vps env_ok 7 4 2 20 (snd (delete_vps env_ok 7 2 three_vps))))))"
  by code_simp

text \<open>
  C2, amended. A container that \<open>create_vps\<close> or \<open>buy_with_credits\<close> stores is named
  \<open>vps-<owner id>-<n>\<close> with \<open>n\<close> the length of the owner's list at the call plus one,
  and is appended to that list. A deletion takes exactly the chosen record out of the
  owner's list and leaves every other record, of this and of every other owner, as it is
  stored: nothing is renumbered. As long as the table is numbered 1, 2, ... per owner
  (\<open>well_numbered\<close>, which holds when no record has been deleted), all container names
  of all owners are distinct, and creating and purchasing keep it so. After a deletion
  the number of a new container can repeat one that was given out before.
\<close>

theorem names_follow_list_length:
  fixes e :: env and st :: store and user :: nat
  defines "uid \<equiv> str_nat user"
  defines "next_name \<equiv> vps_name uid (length (vps_list (vps_data st) uid) + 1)"
  shows "(\<forall>info. fst (create_vps e user r c s st) = Inr info \<longrightarrow>
            container_name info = next_name \<and>
            vps_list (vps_data (snd (create_vps e user r c s st))) uid =
              vps_list (vps_data st) uid @ [info]) \<and>
         (\<forall>info. fst (buy_with_credits e user pl prc sto st) = Inr info \<longrightarrow>
            container_name info = next_name \<and>
            vps_list (vps_data (snd (buy_with_credits e user pl prc sto st))) uid =
              vps_list (vps_data st) uid @ [info]) \<and>
         (fst (delete_vps e user n st) = Inr () \<longrightarrow>
            vps_list (vps_data (snd (delete_vps e user n st))) uid =
              take (nat (n - 1)) (vps_list (vps_data st) uid) @
              drop (nat n) (vps_list (vps_data st) uid) \<and>
            (\<forall>u. u \<noteq> uid \<longrightarrow>
               vps_list (vps_data (snd (delete_vps e user n st))) u = vps_list (vps_data st) u)) \<and>
         (well_numbered (vps_data st) \<longrightarrow>
            distinct (all_names (vps_data st)) \<and>
            well_numbered (vps_data (snd (create_vps e user r c s st))) \<and>
            distinct (all_names (vps_data (snd (create_vps e user r c s st)))) \<and>
            well_numbered (vps_data (snd (buy_with_credits e user pl prc sto st))) \<and>
            distinct (all_names (vps_data (snd (buy_with_credits e user pl prc sto st)))))"
  unfolding uid_def next_name_def
  using create_InrD [of e user r c s st] buy_InrD [of e user pl prc sto st]
    delete_InrD [of e user n st]
    wn_create [of st e user r c s] wn_buy [of st e user pl prc sto]
    well_numbered_distinct
  by blast

text \<open>User 7 with three containers creates a fourth, buys one, and has the second
  deleted; user 1 buys a first one.\<close>

theorem names_follow_list_length_witness:
  "well_numbered (vps_data three_vps) \<and>
   distinct (all_names (vps_data (snd (create_vps env_ok 7 4 2 20 three_vps)))) \<and>
   distinct (all_names (vps_data (snd (buy_with_credits env_ok 7 ''Pro'' ''AMD'' None three_vps)))) \<and>
   container_name (last (vps_list (vps_data (snd (create_vps env_ok 7 4 2 20 three_vps)))
     (str_nat 7))) = vps_name (str_nat 7) (length (vps_list (vps_data three_vps) (str_nat 7)) + 1) \<and>
   vps_list (vps_data (snd (delete_vps env_ok 7 2 three_vps))) (str_nat 7) =
     take (nat (2 - 1)) (vps_list (vps_data three_vps) (str_nat 7)) @
     drop (nat 2) (vps_list (vps_data three_vps) (str_nat 7)) \<and>
   container_name (last (vps_list (vps_data
       (snd (buy_with_credits env_ok 1 ''Starter'' ''Intel'' None funded))) (str_nat 1))) =
     vps_name (str_nat 1) (length (vps_list (vps_data funded) (str_nat 1)) + 1)"
proof -
  have w: "well_numbered (vps_data three_vps)" by code_simp
  have c: "fst (create_vps env_ok 7 4 2 20 three_vps) =
      Inr (last (vps_list (vps_data (snd (create_vps env_ok 7 4 2 20 three_vps))) (str_nat 7)))"
    by code_simp
  have b: "fst (buy_with_credits env_ok 1 ''Starter'' ''Intel'' None funded) =
      Inr (last (vps_list (vps_data
        (snd (buy_with_credits env_ok 1 ''Starter'' ''Intel'' None funded))) (str_nat 1)))"
    by code_simp
  have d: "fst (delete_vps env_ok 7 2 three_vps) = Inr ()" by code_simp
  note t = names_follow_list_length
  from t [of env_ok 7 4 2 20 three_vps "''Pro''" "''AMD''" None 2] w c d
    t [of env_ok 1 4 2 20 funded "''Starter''" "''Intel''" None 2] b
  show ?thesis by blast
qed

end
